theory Spec2Isabelle
  imports Main "HOL-Library.Word"
begin

section \<open>Command runner (internal/runner/runner.go)\<close>

text \<open>
  The runner launches an external process.  What the operating system answers to one
  call of \<open>GenericRunner.Run\<close> is an input (\<open>os_outcome\<close>): whether each
  \<open>os.Create\<close> succeeds and what \<open>execCmd.Run()\<close> returns.  The environment overlay
  and the timeout act on the process only, so their effect is part of that answer (a
  process killed at its timeout ends with an \<open>ExitError\<close>).  The wall-clock fields of
  \<open>ExecResult\<close> (StartedAt, FinishedAt, DurationMs) are left out; \<open>filepath.Join\<close> is
  a parameter.
\<close>

record Command =
  cmd_Args :: "string list"
  cmd_Env :: "(string \<times> string) list"
  cmd_Cwd :: string
  cmd_TimeoutSeconds :: int
  cmd_AllowNonZero :: bool
  cmd_StdoutPath :: string
  cmd_StderrPath :: string
  cmd_CombinedPath :: string

record ExecResult =
  er_ExitCode :: int
  er_StdoutPath :: string
  er_StderrPath :: string
  er_CombinedPath :: string

text \<open>The Go zero value \<open>ExecResult{}\<close>, returned beside every error.\<close>

definition ExecResult_zero :: ExecResult where
  "ExecResult_zero = \<lparr>er_ExitCode = 0, er_StdoutPath = [], er_StderrPath = [], er_CombinedPath = []\<rparr>"

text \<open>
  The error of \<open>execCmd.Run()\<close>: \<open>None\<close> is \<open>nil\<close>, \<open>ExitError c\<close> is an
  \<open>*exec.ExitError\<close> whose \<open>ExitCode()\<close> is \<open>c\<close> (the process was started and ended
  unsuccessfully), \<open>LaunchOrIOError\<close> is any other error (the program was not found, the
  output could not be copied, ...).
\<close>

datatype exec_err = ExitError int | LaunchOrIOError

datatype run_error = ArgsRequired | CreateFailed string | CommandFailed exec_err

record os_outcome =
  create_stdout_ok :: bool
  create_stderr_ok :: bool
  create_combined_ok :: bool
  proc_err :: "exec_err option"

fun exitCode :: "exec_err option \<Rightarrow> int" where
  "exitCode None = 0"
| "exitCode (Some (ExitError c)) = c"
| "exitCode (Some LaunchOrIOError) = 1"

record GenericRunner =
  artifactRoot :: string

definition NewGenericRunner :: "string \<Rightarrow> GenericRunner" where
  "NewGenericRunner root = \<lparr>artifactRoot = root\<rparr>"

definition Run ::
  "(string list \<Rightarrow> string) \<Rightarrow> GenericRunner \<Rightarrow> os_outcome \<Rightarrow> Command \<Rightarrow> ExecResult \<times> run_error option"
where
  "Run Join r os cmd =
    (if cmd_Args cmd = [] then (ExecResult_zero, Some ArgsRequired)
     else
       let stdoutPath = (if cmd_StdoutPath cmd = [] then Join [artifactRoot r, ''stdout.log'']
                         else cmd_StdoutPath cmd);
           stderrPath = (if cmd_StderrPath cmd = [] then Join [artifactRoot r, ''stderr.log'']
                         else cmd_StderrPath cmd)
       in if \<not> create_stdout_ok os then (ExecResult_zero, Some (CreateFailed stdoutPath))
          else if \<not> create_stderr_ok os then (ExecResult_zero, Some (CreateFailed stderrPath))
          else if cmd_CombinedPath cmd \<noteq> [] \<and> \<not> create_combined_ok os
            then (ExecResult_zero, Some (CreateFailed (cmd_CombinedPath cmd)))
          else
            (case proc_err os of
               None \<Rightarrow>
                 (\<lparr>er_ExitCode = exitCode None, er_StdoutPath = stdoutPath,
                   er_StderrPath = stderrPath, er_CombinedPath = cmd_CombinedPath cmd\<rparr>, None)
             | Some e \<Rightarrow>
                 if \<not> cmd_AllowNonZero cmd \<and> exitCode (Some e) \<noteq> 0
                 then (ExecResult_zero, Some (CommandFailed e))
                 else (\<lparr>er_ExitCode = exitCode (Some e), er_StdoutPath = stdoutPath,
                        er_StderrPath = stderrPath, er_CombinedPath = cmd_CombinedPath cmd\<rparr>, None)))"

text \<open>The registry: a Go map from names to runners; \<open>Get\<close> falls back to "generic".
  A missing "generic" entry makes \<open>Get\<close> return \<open>nil\<close> (\<open>None\<close>).\<close>

type_synonym Registry = "string \<rightharpoonup> GenericRunner"

definition NewRegistry :: "string \<Rightarrow> Registry" where
  "NewRegistry root =
     (let generic = NewGenericRunner root
      in [''generic'' \<mapsto> generic, ''python'' \<mapsto> generic])"

definition Get :: "Registry \<Rightarrow> string \<Rightarrow> GenericRunner option" where
  "Get r name = (case r name of Some runner \<Rightarrow> Some runner | None \<Rightarrow> r ''generic'')"

text \<open>A call of \<open>Run\<close> fails before any process is started: there is no argv, or an
  output file cannot be created.\<close>

definition failsBeforeStart :: "os_outcome \<Rightarrow> Command \<Rightarrow> bool" where
  "failsBeforeStart os cmd \<longleftrightarrow>
     cmd_Args cmd = [] \<or> \<not> create_stdout_ok os \<or> \<not> create_stderr_ok os \<or>
     (cmd_CombinedPath cmd \<noteq> [] \<and> \<not> create_combined_ok os)"

section \<open>Validation specs and their execution (internal/core/models.go, internal/engine/worker.go)\<close>

record CommandSpec =
  cs_Runner :: string
  cs_Args :: "string list"
  cs_Env :: "(string \<times> string) list"
  cs_Cwd :: string
  cs_TimeoutSeconds :: int

text \<open>The floating-point field \<open>MinCoverageDelta\<close> of the success criteria is left
  out; no code reads it.\<close>

record SuccessCriteria =
  RequireExitCode0 :: bool
  MaxNewFindings :: int

record ValidationSpec =
  Commands :: "CommandSpec list"
  SuccessCriteria :: SuccessCriteria

text \<open>The command that \<open>runValidation\<close> builds for one entry of the spec; the fields it
  does not set have Go's zero values.\<close>

definition validationCommand :: "CommandSpec \<Rightarrow> string \<Rightarrow> Command" where
  "validationCommand command workspace =
     \<lparr>cmd_Args = cs_Args command, cmd_Env = [], cmd_Cwd = workspace, cmd_TimeoutSeconds = 0,
      cmd_AllowNonZero = True, cmd_StdoutPath = [], cmd_StderrPath = [], cmd_CombinedPath = []\<rparr>"

text \<open>
  The loop of \<open>runValidation\<close>.  \<open>os i cmd\<close> is what the operating system answers to the
  \<open>i\<close>-th command of the spec; \<open>None\<close> is the nil-pointer panic of calling \<open>Run\<close> on the
  \<open>nil\<close> runner of a registry without "generic".
\<close>

fun runValidation_loop ::
  "(string list \<Rightarrow> string) \<Rightarrow> Registry \<Rightarrow> (nat \<Rightarrow> Command \<Rightarrow> os_outcome) \<Rightarrow> string \<Rightarrow>
   nat \<Rightarrow> CommandSpec list \<Rightarrow> int \<Rightarrow> int option"
where
  "runValidation_loop Join reg os workspace i [] ec = Some ec"
| "runValidation_loop Join reg os workspace i (command # rest) ec =
     (let cmd = validationCommand command workspace in
      case Get reg (cs_Runner command) of
        None \<Rightarrow> None
      | Some runner \<Rightarrow>
          (let (result, err) = Run Join runner (os i cmd) cmd;
               ec1 = (if err \<noteq> None then 1 else ec);
               ec2 = (if er_ExitCode result \<noteq> 0 then er_ExitCode result else ec1)
           in runValidation_loop Join reg os workspace (Suc i) rest ec2))"

definition runValidation ::
  "(string list \<Rightarrow> string) \<Rightarrow> Registry \<Rightarrow> (nat \<Rightarrow> Command \<Rightarrow> os_outcome) \<Rightarrow> ValidationSpec \<Rightarrow>
   string \<Rightarrow> int option"
where
  "runValidation Join reg os spec workspace =
     runValidation_loop Join reg os workspace 0 (Commands spec) 0"

text \<open>What the validation commands returned, in order: the pairs of \<open>Run\<close>, through
  the generic runner that every name of \<open>NewRegistry\<close> resolves to.\<close>

fun validationTrace ::
  "(string list \<Rightarrow> string) \<Rightarrow> string \<Rightarrow> (nat \<Rightarrow> Command \<Rightarrow> os_outcome) \<Rightarrow> string \<Rightarrow>
   nat \<Rightarrow> CommandSpec list \<Rightarrow> (ExecResult \<times> run_error option) list"
where
  "validationTrace Join root os workspace i [] = []"
| "validationTrace Join root os workspace i (command # rest) =
     Run Join (NewGenericRunner root) (os i (validationCommand command workspace))
       (validationCommand command workspace)
     # validationTrace Join root os workspace (Suc i) rest"

text \<open>A command "exits zero" when \<open>Run\<close> returned no error and exit code 0.\<close>

definition exitsZero :: "ExecResult \<times> run_error option \<Rightarrow> bool" where
  "exitsZero r \<longleftrightarrow> snd r = None \<and> er_ExitCode (fst r) = 0"

text \<open>The exit code one command contributes: 1 for a runner error, else its exit code.\<close>

definition observedCode :: "ExecResult \<times> run_error option \<Rightarrow> int" where
  "observedCode r = (if er_ExitCode (fst r) \<noteq> 0 then er_ExitCode (fst r)
                     else if snd r \<noteq> None then 1 else 0)"

text \<open>Following the spec's words: the worst exit code of a run of commands, the most
  severe being the largest.\<close>

definition worstExitCode :: "int list \<Rightarrow> int" where
  "worstExitCode codes = fold max codes 0"

section \<open>Agent adapters (package agent)\<close>

record Request =
  req_SchemaVersion :: int
  req_RunID :: string
  req_TaskID :: int
  req_TaskType :: string
  req_Tool :: string
  req_RepoPath :: string
  req_WorkspacePath :: string
  req_AllowedPaths :: "string list"
  req_ReadOnlyPaths :: "string list"
  req_Targets :: "(string \<times> string) list"
  req_Instructions :: string
  req_Validation :: "string list"

record Result =
  res_SchemaVersion :: int
  res_RunID :: string
  res_TaskID :: int
  res_Status :: string
  res_Summary :: string
  res_FilesChanged :: "string list"

text \<open>
  What the child process of a CLI adapter does, an input of the model: encoding the
  request fails, \<open>cmd.Run()\<close> fails, the standard output does not decode, or it decodes
  to a \<open>Result\<close>.
\<close>

datatype child_outcome = EncodeError | RunError | DecodeError | Stdout Result

datatype agent_error =
  NotConfigured | EncodeFailed | AgentCommandFailed | DecodeFailed
  | SchemaMismatch int | ResultMismatch | TaskIDRequired

record CodexCLIAdapter =
  codex_command :: "string list"

record CommandAdapter =
  ca_name :: string
  ca_command :: "string list"

text \<open>\<open>defaultCodexCommand\<close>: \<open>envval\<close> is the value of \<open>ATQOS_CODEX_CMD\<close>, \<open>Fields\<close> is
  \<open>strings.Fields\<close>.\<close>

definition defaultCodexCommand :: "(string \<Rightarrow> string list) \<Rightarrow> string \<Rightarrow> string list" where
  "defaultCodexCommand Fields envval = (if envval = [] then [''codex''] else Fields envval)"

definition CodexCLIAdapter_Invoke ::
  "(string \<Rightarrow> string list) \<Rightarrow> string \<Rightarrow> (string list \<Rightarrow> Request \<Rightarrow> child_outcome) \<Rightarrow>
   CodexCLIAdapter \<Rightarrow> Request \<Rightarrow> agent_error + Result"
where
  "CodexCLIAdapter_Invoke Fields envval child a req =
     (let command = (if codex_command a = [] then defaultCodexCommand Fields envval
                     else codex_command a)
      in if command = [] then Inl NotConfigured
         else case child command req of
                EncodeError \<Rightarrow> Inl EncodeFailed
              | RunError \<Rightarrow> Inl AgentCommandFailed
              | DecodeError \<Rightarrow> Inl DecodeFailed
              | Stdout result \<Rightarrow>
                  if res_SchemaVersion result \<noteq> req_SchemaVersion req
                  then Inl (SchemaMismatch (res_SchemaVersion result))
                  else if res_RunID result \<noteq> req_RunID req \<or> res_TaskID result \<noteq> req_TaskID req
                  then Inl ResultMismatch
                  else Inr result)"

definition CommandAdapter_Invoke ::
  "(string list \<Rightarrow> Request \<Rightarrow> child_outcome) \<Rightarrow> CommandAdapter \<Rightarrow> Request \<Rightarrow> agent_error + Result"
where
  "CommandAdapter_Invoke child a req =
     (if ca_command a = [] then Inl NotConfigured
      else case child (ca_command a) req of
             EncodeError \<Rightarrow> Inl EncodeFailed
           | RunError \<Rightarrow> Inl AgentCommandFailed
           | DecodeError \<Rightarrow> Inl DecodeFailed
           | Stdout result \<Rightarrow> Inr result)"

definition LocalAdapter_Invoke :: "Request \<Rightarrow> agent_error + Result" where
  "LocalAdapter_Invoke req =
     (if req_TaskID req = 0 then Inl TaskIDRequired
      else Inr \<lparr>res_SchemaVersion = req_SchemaVersion req, res_RunID = req_RunID req,
                res_TaskID = req_TaskID req, res_Status = ''success'',
                res_Summary = ''no-op agent invocation'', res_FilesChanged = []\<rparr>)"

text \<open>The implementations of the interface \<open>Agent\<close>.\<close>

datatype Agent = Local | Codex CodexCLIAdapter | CommandAgent CommandAdapter

fun Agent_Name :: "Agent \<Rightarrow> string" where
  "Agent_Name Local = ''local''"
| "Agent_Name (Codex a) = ''codex''"
| "Agent_Name (CommandAgent a) = ca_name a"

fun Agent_Invoke ::
  "(string \<Rightarrow> string list) \<Rightarrow> string \<Rightarrow> (string list \<Rightarrow> Request \<Rightarrow> child_outcome) \<Rightarrow>
   Agent \<Rightarrow> Request \<Rightarrow> agent_error + Result"
where
  "Agent_Invoke Fields envval child Local req = LocalAdapter_Invoke req"
| "Agent_Invoke Fields envval child (Codex a) req = CodexCLIAdapter_Invoke Fields envval child a req"
| "Agent_Invoke Fields envval child (CommandAgent a) req = CommandAdapter_Invoke child a req"

text \<open>A result matches its request when the schema version, the run id and the task id
  are those of the request.\<close>

definition resultMatches :: "Request \<Rightarrow> Result \<Rightarrow> bool" where
  "resultMatches req res \<longleftrightarrow>
     res_SchemaVersion res = req_SchemaVersion req \<and> res_RunID res = req_RunID req \<and>
     res_TaskID res = req_TaskID req"

section \<open>Environment probe (internal/repo/adapter.go)\<close>

record Profile =
  RepoPath :: string
  PythonManager :: string
  HasUVLock :: bool
  HasPoetryLock :: bool
  VenvPath :: string

record PythonInvocation =
  PythonPath :: string
  Tool :: string
  PrefixArgs :: "string list"

text \<open>\<open>Detect\<close> reads the file system through \<open>exists\<close>; its error result is always
  \<open>nil\<close>, as is that of \<open>ResolvePython\<close>, so both are modelled by their value.\<close>

definition Detect :: "(string list \<Rightarrow> string) \<Rightarrow> (string \<Rightarrow> bool) \<Rightarrow> string \<Rightarrow> Profile" where
  "Detect Join exists repoPath =
     (let profile = \<lparr>RepoPath = repoPath, PythonManager = [], HasUVLock = False,
                      HasPoetryLock = False, VenvPath = []\<rparr>;
          uvLock = Join [repoPath, ''uv.lock''];
          profile = (if exists uvLock
                     then profile\<lparr>HasUVLock := True, PythonManager := ''uv''\<rparr> else profile);
          poetryLock = Join [repoPath, ''poetry.lock''];
          profile = (if exists poetryLock
                     then (let profile = profile\<lparr>HasPoetryLock := True\<rparr>
                           in if PythonManager profile = [] then profile\<lparr>PythonManager := ''poetry''\<rparr>
                              else profile)
                     else profile);
          venvPath = Join [repoPath, ''.venv'', ''bin'', ''python''];
          profile = (if exists venvPath
                     then (let profile = profile\<lparr>VenvPath := venvPath\<rparr>
                           in if PythonManager profile = [] then profile\<lparr>PythonManager := ''venv''\<rparr>
                              else profile)
                     else profile)
      in if PythonManager profile = [] then profile\<lparr>PythonManager := ''system''\<rparr> else profile)"

definition ResolvePython :: "Profile \<Rightarrow> PythonInvocation" where
  "ResolvePython profile =
     (if VenvPath profile \<noteq> [] then \<lparr>PythonPath = VenvPath profile, Tool = [], PrefixArgs = []\<rparr>
      else if HasUVLock profile then \<lparr>PythonPath = [], Tool = ''uv'', PrefixArgs = [''run'', ''python'']\<rparr>
      else \<lparr>PythonPath = ''python'', Tool = [], PrefixArgs = []\<rparr>)"

definition Command_of :: "PythonInvocation \<Rightarrow> string list \<Rightarrow> string list" where
  "Command_of p args =
     (if PythonPath p \<noteq> [] then [PythonPath p] @ args
      else if Tool p \<noteq> [] then ([Tool p] @ PrefixArgs p) @ args
      else args)"

text \<open>\<open>filepath.IsAbs\<close> on Unix: the path begins with a slash.\<close>

definition IsAbs :: "string \<Rightarrow> bool" where
  "IsAbs path = (case path of [] \<Rightarrow> False | c # _ \<Rightarrow> c = CHR ''/'')"

text \<open>Following the spec's words, the two shapes of an invocation: interpreter mode, an
  absolute path to an interpreter and an empty prefix; tool-runner mode, a wrapping tool
  name plus a prefix argv.\<close>

definition interpreterMode_spec :: "PythonInvocation \<Rightarrow> bool" where
  "interpreterMode_spec p \<longleftrightarrow> IsAbs (PythonPath p) \<and> PrefixArgs p = []"

definition toolRunnerMode_spec :: "PythonInvocation \<Rightarrow> bool" where
  "toolRunnerMode_spec p \<longleftrightarrow> Tool p \<noteq> [] \<and> PrefixArgs p \<noteq> []"

text \<open>The two shapes the code returns: an interpreter path alone, or a tool with its
  prefix and no interpreter path.\<close>

definition interpreterMode :: "PythonInvocation \<Rightarrow> bool" where
  "interpreterMode p \<longleftrightarrow> PythonPath p \<noteq> [] \<and> Tool p = [] \<and> PrefixArgs p = []"

definition toolRunnerMode :: "PythonInvocation \<Rightarrow> bool" where
  "toolRunnerMode p \<longleftrightarrow> PythonPath p = [] \<and> Tool p \<noteq> [] \<and> PrefixArgs p \<noteq> []"

section \<open>Records of the data model (internal/core/models.go)\<close>

text \<open>
  A \<open>time.Time\<close> is modelled at the precision the store keeps: whole seconds, counted
  from the zero \<open>time.Time\<close>.  The store writes an instant as RFC 3339 text in UTC; on
  such texts the lexicographic order of SQL is the chronological order, so a timestamp
  column is the number itself.
\<close>

type_synonym Time = nat

record FindingRecord =
  f_RunID :: string
  f_Tool :: string
  f_Kind :: string
  f_Severity :: string
  f_Fingerprint :: string
  f_Message :: string
  f_FilePath :: string
  f_Line :: int
  f_Column :: int
  f_Symbol :: string
  f_TestID :: string
  f_RawRef :: string
  f_MetaJSON :: string
  f_CreatedAt :: Time

record TaskRecord =
  t_ID :: int
  t_RunID :: string
  t_Tool :: string
  t_TaskType :: string
  t_Priority :: int
  t_Status :: string
  t_Fingerprint :: string
  t_Title :: string
  t_Description :: string
  t_TargetsJSON :: string
  t_ValidationJSON :: string
  t_RetryPolicyJSON :: string
  t_DependsOnJSON :: string
  t_ExtraJSON :: string
  t_ClaimedBy :: string
  t_ClaimedAt :: Time
  t_CreatedAt :: Time
  t_UpdatedAt :: Time

record AttemptRecord =
  ar_ID :: int
  ar_TaskID :: int
  ar_AttemptNo :: int
  ar_Status :: string
  ar_AgentName :: string
  ar_AgentExitCode :: int
  ar_ValidationExitCode :: int
  ar_StartedAt :: Time
  ar_FinishedAt :: Time
  ar_SummaryJSON :: string
  ar_DiffStatsJSON :: string
  ar_ArtifactsJSON :: string

section \<open>Durable store (package store)\<close>

text \<open>
  The tables \<open>tasks\<close>, \<open>attempts\<close> and \<open>findings\<close> as lists of rows in insertion order,
  each with the counter of its \<open>AUTOINCREMENT\<close> key (the largest id ever given out).
  Nullable columns that the program leaves \<open>NULL\<close> are options.  A statement or a
  transaction of the database either takes effect or fails and leaves the tables as they
  were; which one happens is an input (\<open>db_fault\<close>).  The tables \<open>runs\<close>,
  \<open>artifacts\<close> and \<open>task_findings\<close> play no part in what follows and are left out.
\<close>

record task_row =
  r_id :: int
  r_run_id :: string
  r_tool :: string
  r_task_type :: string
  r_priority :: int
  r_status :: string
  r_fingerprint :: string
  r_title :: string
  r_description :: string
  r_targets_json :: string
  r_validation_json :: string
  r_retry_policy_json :: string
  r_depends_on_json :: string
  r_extra_json :: string
  r_claimed_by :: "string option"
  r_claimed_at :: "Time option"
  r_created_at :: Time
  r_updated_at :: Time

record attempt_row =
  at_id :: int
  at_task_id :: int
  at_attempt_no :: int
  at_status :: string
  at_agent_name :: string
  at_agent_exit_code :: int
  at_validation_exit_code :: int
  at_started_at :: Time
  at_finished_at :: "Time option"
  at_summary_json :: string
  at_diff_stats_json :: string
  at_artifacts_json :: string

record SQLiteStore =
  db_tasks :: "task_row list"
  db_tasks_seq :: int
  db_attempts :: "attempt_row list"
  db_attempts_seq :: int
  db_findings :: "(int \<times> FindingRecord) list"
  db_findings_seq :: int

datatype db_fault = NoFault | FailBegin | FailQuery | FailExec | FailCommit

datatype db_error = DbError

subsection \<open>InsertFindings, InsertTasks\<close>

fun newFindingRows :: "int \<Rightarrow> FindingRecord list \<Rightarrow> (int \<times> FindingRecord) list" where
  "newFindingRows seq [] = []"
| "newFindingRows seq (finding # rest) = (seq + 1, finding) # newFindingRows (seq + 1) rest"

definition InsertFindings ::
  "db_fault \<Rightarrow> SQLiteStore \<Rightarrow> FindingRecord list \<Rightarrow> db_error option \<times> SQLiteStore"
where
  "InsertFindings fault s findings =
     (if findings = [] then (None, s)
      else if fault \<noteq> NoFault then (Some DbError, s)
      else (None, s\<lparr>db_findings := db_findings s @ newFindingRows (db_findings_seq s) findings,
                      db_findings_seq := db_findings_seq s + int (length findings)\<rparr>))"

definition newTaskRow :: "int \<Rightarrow> TaskRecord \<Rightarrow> task_row" where
  "newTaskRow i task =
     \<lparr>r_id = i, r_run_id = t_RunID task, r_tool = t_Tool task, r_task_type = t_TaskType task,
      r_priority = t_Priority task, r_status = t_Status task, r_fingerprint = t_Fingerprint task,
      r_title = t_Title task, r_description = t_Description task,
      r_targets_json = t_TargetsJSON task, r_validation_json = t_ValidationJSON task,
      r_retry_policy_json = t_RetryPolicyJSON task, r_depends_on_json = t_DependsOnJSON task,
      r_extra_json = t_ExtraJSON task, r_claimed_by = None, r_claimed_at = None,
      r_created_at = t_CreatedAt task, r_updated_at = t_UpdatedAt task\<rparr>"

fun newTaskRows :: "int \<Rightarrow> TaskRecord list \<Rightarrow> task_row list" where
  "newTaskRows seq [] = []"
| "newTaskRows seq (task # rest) = newTaskRow (seq + 1) task # newTaskRows (seq + 1) rest"

definition InsertTasks ::
  "db_fault \<Rightarrow> SQLiteStore \<Rightarrow> TaskRecord list \<Rightarrow> db_error option \<times> SQLiteStore"
where
  "InsertTasks fault s tasks =
     (if tasks = [] then (None, s)
      else if fault \<noteq> NoFault then (Some DbError, s)
      else (None, s\<lparr>db_tasks := db_tasks s @ newTaskRows (db_tasks_seq s) tasks,
                      db_tasks_seq := db_tasks_seq s + int (length tasks)\<rparr>))"

subsection \<open>ClaimNextTask\<close>

text \<open>
  \<open>ORDER BY priority DESC, created_at ASC LIMIT 1\<close>: \<open>sortsBefore a b\<close> says that row
  \<open>a\<close> comes strictly before row \<open>b\<close> in that order.  SQL leaves the order of rows that
  tie on both keys open; the model takes the one stored first.
\<close>

definition sortsBefore :: "task_row \<Rightarrow> task_row \<Rightarrow> bool" where
  "sortsBefore a b \<longleftrightarrow>
     r_priority a > r_priority b \<or> (r_priority a = r_priority b \<and> r_created_at a < r_created_at b)"

fun firstInOrder :: "task_row list \<Rightarrow> task_row option" where
  "firstInOrder [] = None"
| "firstInOrder (r # rs) =
     (case firstInOrder rs of
        None \<Rightarrow> Some r
      | Some b \<Rightarrow> if sortsBefore b r then Some b else Some r)"

definition isQueuedOf :: "string \<Rightarrow> task_row \<Rightarrow> bool" where
  "isQueuedOf runID r \<longleftrightarrow> r_run_id r = runID \<and> r_status r = ''queued''"

definition selectNextQueued :: "task_row list \<Rightarrow> string \<Rightarrow> task_row option" where
  "selectNextQueued rows runID = firstInOrder (filter (isQueuedOf runID) rows)"

text \<open>\<open>row.Scan\<close> and the assignments after it: a \<open>NULL\<close> claimant leaves the zero value.\<close>

definition scanTask :: "string \<Rightarrow> task_row \<Rightarrow> TaskRecord" where
  "scanTask runID row =
     \<lparr>t_ID = r_id row, t_RunID = runID, t_Tool = r_tool row, t_TaskType = r_task_type row,
      t_Priority = r_priority row, t_Status = r_status row, t_Fingerprint = r_fingerprint row,
      t_Title = r_title row, t_Description = r_description row,
      t_TargetsJSON = r_targets_json row, t_ValidationJSON = r_validation_json row,
      t_RetryPolicyJSON = r_retry_policy_json row, t_DependsOnJSON = r_depends_on_json row,
      t_ExtraJSON = r_extra_json row,
      t_ClaimedBy = (case r_claimed_by row of Some w \<Rightarrow> w | None \<Rightarrow> []),
      t_ClaimedAt = (case r_claimed_at row of Some t \<Rightarrow> t | None \<Rightarrow> 0),
      t_CreatedAt = r_created_at row, t_UpdatedAt = r_updated_at row\<rparr>"

text \<open>The \<open>UPDATE ... WHERE id = ? AND status = 'queued'\<close> of the claim.\<close>

definition markRunning :: "int \<Rightarrow> string \<Rightarrow> Time \<Rightarrow> task_row \<Rightarrow> task_row" where
  "markRunning taskID workerID now r =
     (if r_id r = taskID \<and> r_status r = ''queued''
      then r\<lparr>r_status := ''running'', r_claimed_by := Some workerID, r_claimed_at := Some now,
              r_updated_at := now\<rparr>
      else r)"

definition ClaimNextTask ::
  "db_fault \<Rightarrow> Time \<Rightarrow> SQLiteStore \<Rightarrow> string \<Rightarrow> string \<Rightarrow>
   (db_error + TaskRecord option) \<times> SQLiteStore"
where
  "ClaimNextTask fault now s runID workerID =
     (if fault = FailBegin \<or> fault = FailQuery then (Inl DbError, s)
      else case selectNextQueued (db_tasks s) runID of
             None \<Rightarrow> (Inr None, s)
           | Some row \<Rightarrow>
               (let task = scanTask runID row
                in if fault = FailExec \<or> fault = FailCommit then (Inl DbError, s)
                   else (Inr (Some (task\<lparr>t_Status := ''running'', t_ClaimedBy := workerID,
                                           t_ClaimedAt := now, t_UpdatedAt := now\<rparr>)),
                         s\<lparr>db_tasks := map (markRunning (t_ID task) workerID now) (db_tasks s)\<rparr>)))"

subsection \<open>UpdateTaskStatus, CreateAttempt, FinishAttempt\<close>

definition setStatus :: "int \<Rightarrow> string \<Rightarrow> string \<Rightarrow> Time \<Rightarrow> task_row \<Rightarrow> task_row" where
  "setStatus taskID status extraJSON now r =
     (if r_id r = taskID
      then r\<lparr>r_status := status, r_extra_json := extraJSON, r_updated_at := now\<rparr>
      else r)"

definition UpdateTaskStatus ::
  "db_fault \<Rightarrow> Time \<Rightarrow> SQLiteStore \<Rightarrow> int \<Rightarrow> string \<Rightarrow> string \<Rightarrow> db_error option \<times> SQLiteStore"
where
  "UpdateTaskStatus fault now s taskID status extraJSON =
     (if fault \<noteq> NoFault then (Some DbError, s)
      else (None, s\<lparr>db_tasks := map (setStatus taskID status extraJSON now) (db_tasks s)\<rparr>))"

definition newAttemptRow :: "int \<Rightarrow> AttemptRecord \<Rightarrow> attempt_row" where
  "newAttemptRow i attempt =
     \<lparr>at_id = i, at_task_id = ar_TaskID attempt, at_attempt_no = ar_AttemptNo attempt,
      at_status = ar_Status attempt, at_agent_name = ar_AgentName attempt,
      at_agent_exit_code = ar_AgentExitCode attempt,
      at_validation_exit_code = ar_ValidationExitCode attempt,
      at_started_at = ar_StartedAt attempt, at_finished_at = None,
      at_summary_json = ar_SummaryJSON attempt, at_diff_stats_json = ar_DiffStatsJSON attempt,
      at_artifacts_json = ar_ArtifactsJSON attempt\<rparr>"

definition CreateAttempt ::
  "db_fault \<Rightarrow> SQLiteStore \<Rightarrow> AttemptRecord \<Rightarrow> (db_error + int) \<times> SQLiteStore"
where
  "CreateAttempt fault s attempt =
     (if fault \<noteq> NoFault then (Inl DbError, s)
      else (Inr (db_attempts_seq s + 1),
            s\<lparr>db_attempts := db_attempts s @ [newAttemptRow (db_attempts_seq s + 1) attempt],
              db_attempts_seq := db_attempts_seq s + 1\<rparr>))"

definition setFinished :: "int \<Rightarrow> string \<Rightarrow> string \<Rightarrow> int \<Rightarrow> Time \<Rightarrow> attempt_row \<Rightarrow> attempt_row" where
  "setFinished attemptID status summaryJSON validationExitCode now a =
     (if at_id a = attemptID
      then a\<lparr>at_status := status, at_summary_json := summaryJSON,
              at_validation_exit_code := validationExitCode, at_finished_at := Some now\<rparr>
      else a)"

definition FinishAttempt ::
  "db_fault \<Rightarrow> Time \<Rightarrow> SQLiteStore \<Rightarrow> int \<Rightarrow> string \<Rightarrow> string \<Rightarrow> int \<Rightarrow>
   db_error option \<times> SQLiteStore"
where
  "FinishAttempt fault now s attemptID status summaryJSON validationExitCode =
     (if fault \<noteq> NoFault then (Some DbError, s)
      else (None, s\<lparr>db_attempts :=
                       map (setFinished attemptID status summaryJSON validationExitCode now)
                         (db_attempts s)\<rparr>))"

text \<open>Lookups by primary key, for stating what a table holds.\<close>

definition taskRow :: "SQLiteStore \<Rightarrow> int \<Rightarrow> task_row option" where
  "taskRow s i = find (\<lambda>r. r_id r = i) (db_tasks s)"

definition attemptRow :: "SQLiteStore \<Rightarrow> int \<Rightarrow> attempt_row option" where
  "attemptRow s i = find (\<lambda>a. at_id a = i) (db_attempts s)"

text \<open>The primary-key discipline of \<open>AUTOINCREMENT\<close>: ids are unique and none exceeds
  the counter.\<close>

definition keysOK :: "SQLiteStore \<Rightarrow> bool" where
  "keysOK s \<longleftrightarrow> distinct (map r_id (db_tasks s)) \<and> list_all (\<lambda>r. r_id r \<le> db_tasks_seq s) (db_tasks s)"

section \<open>Fingerprints and normalisation of the pytest plugin (package pytest)\<close>

fun strings_Join :: "string list \<Rightarrow> string \<Rightarrow> string" where
  "strings_Join [] sep = []"
| "strings_Join [x] sep = x"
| "strings_Join (x # y # rest) sep = x @ sep @ strings_Join (y # rest) sep"











section \<open>Checkpoint tracker (internal/engine/worker.go)\<close>

text \<open>
  The tracker reads the monotonic clock; an instant of that clock and a
  \<open>time.Duration\<close> are numbers of nanoseconds.  The product
  \<open>time.Duration(minutes) * time.Minute\<close> is a 64-bit multiplication.  \<open>ShouldRun\<close>
  reads the clock twice: \<open>now1\<close> in \<open>time.Since\<close>, \<open>now2\<close> for the new \<open>lastRun\<close>.
\<close>

record checkpointTracker =
  interval :: int
  lastRun :: int

definition Minute :: int where
  "Minute = 60 * 1000000000"

definition newCheckpointTracker :: "int \<Rightarrow> int \<Rightarrow> checkpointTracker" where
  "newCheckpointTracker minutes now =
     (let minutes = (if minutes \<le> 0 then 30 else minutes)
      in \<lparr>interval = sint ((word_of_int minutes :: 64 word) * word_of_int Minute), lastRun = now\<rparr>)"

definition ShouldRun :: "checkpointTracker \<Rightarrow> int \<Rightarrow> int \<Rightarrow> bool \<times> checkpointTracker" where
  "ShouldRun c now1 now2 =
     (if now1 - lastRun c < interval c then (False, c)
      else (True, c\<lparr>lastRun := now2\<rparr>))"

section \<open>The worker (internal/engine/worker.go)\<close>

text \<open>The configuration, without the floating-point coverage threshold.\<close>

record Config =
  MaxWorkers :: int
  MaxAgentWorkers :: int
  RetryCap :: int
  CheckpointMins :: int
  AllowedPaths :: "string list"
  GitStrategy :: string
  PytestEnabled :: bool
  CoverageEnabled :: bool

definition PluginEnabled :: "Config \<Rightarrow> string \<Rightarrow> bool" where
  "PluginEnabled c ident =
     (if ident = ''pytest'' then PytestEnabled c
      else if ident = ''coverage'' then CoverageEnabled c
      else True)"

record RunContext =
  rc_RunID :: string
  rc_RepoPath :: string
  rc_ArtifactRoot :: string
  rc_RunnerRegistry :: Registry
  rc_Config :: Config

record Workspace =
  ws_Path :: string
  ws_Branch :: string
  ws_Worktree :: bool

text \<open>The executor; its store is the state that the worker passes along.  Plugins are
  named by their ids.\<close>

record Executor =
  ex_RunContext :: RunContext
  ex_Agent :: Agent
  ex_Plugins :: "string list"


text \<open>
  The host: \<open>filepath.Join\<close>, \<open>strings.Fields\<close>, the value of \<open>ATQOS_CODEX_CMD\<close>, and
  \<open>json.Unmarshal\<close> into a \<open>ValidationSpec\<close> (\<open>None\<close> is its error).
\<close>

record host =
  h_Join :: "string list \<Rightarrow> string"
  h_Fields :: "string \<Rightarrow> string list"
  h_CodexCmd :: string
  h_Unmarshal :: "string \<Rightarrow> ValidationSpec option"

text \<open>
  What one plugin does in a checkpoint pass: \<open>pp_findings\<close> is the outcome of Collect,
  AddArtifact and Normalize (\<open>None\<close> when one of them returns an error), \<open>pp_tasks\<close> that of
  Plan, ValidationSpec and \<open>json.Marshal\<close>, the tasks with their \<open>ValidationJSON\<close> filled.
\<close>

record plugin_pass =
  pp_findings :: "FindingRecord list option"
  pp_findings_fault :: db_fault
  pp_tasks :: "TaskRecord list option"
  pp_tasks_fault :: db_fault

text \<open>
  What the world answers during one iteration of the worker loop: the faults of the
  database, the readings of the clocks, the workspace that \<open>PrepareWorkspace\<close> returns
  (\<open>None\<close> is its error; both strategies are behind the interface \<open>git.Strategy\<close>), the
  child process of the agent, the processes of the validation commands, and the plugins
  and the event log of a checkpoint pass.
\<close>

record iteration_world =
  w_claim_fault :: db_fault
  w_claim_time :: Time
  w_attempt_fault :: db_fault
  w_attempt_time :: Time
  w_prepare :: "Workspace option"
  w_child :: "string list \<Rightarrow> Request \<Rightarrow> child_outcome"
  w_os :: "nat \<Rightarrow> Command \<Rightarrow> os_outcome"
  w_finish_fault :: db_fault
  w_finish_time :: Time
  w_update_fault :: db_fault
  w_update_time :: Time
  w_now1 :: int
  w_now2 :: int
  w_emit_started_ok :: bool
  w_plugin :: "string \<Rightarrow> plugin_pass"
  w_emit_finished_ok :: bool

datatype checkpoint_error = EmitFailed | PluginFailed | StoreFailed

fun runCheckpoint_plugins ::
  "Config \<Rightarrow> (string \<Rightarrow> plugin_pass) \<Rightarrow> string list \<Rightarrow> SQLiteStore \<Rightarrow>
   checkpoint_error option \<times> SQLiteStore"
where
  "runCheckpoint_plugins cfg pw [] s = (None, s)"
| "runCheckpoint_plugins cfg pw (plugin # rest) s =
     (if \<not> PluginEnabled cfg plugin then runCheckpoint_plugins cfg pw rest s
      else case pp_findings (pw plugin) of
             None \<Rightarrow> (Some PluginFailed, s)
           | Some findings \<Rightarrow>
               (case InsertFindings (pp_findings_fault (pw plugin)) s findings of
                  (Some err, s1) \<Rightarrow> (Some StoreFailed, s1)
                | (None, s1) \<Rightarrow>
                    (case pp_tasks (pw plugin) of
                       None \<Rightarrow> (Some PluginFailed, s1)
                     | Some tasks \<Rightarrow>
                         (case InsertTasks (pp_tasks_fault (pw plugin)) s1 tasks of
                            (Some err, s2) \<Rightarrow> (Some StoreFailed, s2)
                          | (None, s2) \<Rightarrow> runCheckpoint_plugins cfg pw rest s2))))"

definition runCheckpoint ::
  "Executor \<Rightarrow> iteration_world \<Rightarrow> SQLiteStore \<Rightarrow> checkpoint_error option \<times> SQLiteStore"
where
  "runCheckpoint e w s =
     (if \<not> w_emit_started_ok w then (Some EmitFailed, s)
      else case runCheckpoint_plugins (rc_Config (ex_RunContext e)) (w_plugin w) (ex_Plugins e) s of
             (Some err, s1) \<Rightarrow> (Some err, s1)
           | (None, s1) \<Rightarrow> (if w_emit_finished_ok w then (None, s1) else (Some EmitFailed, s1)))"

definition validationSpec :: "(string \<Rightarrow> ValidationSpec option) \<Rightarrow> string \<Rightarrow> ValidationSpec option" where
  "validationSpec Unmarshal validationJSON = Unmarshal validationJSON"

definition joinArgs :: "string list \<Rightarrow> string" where
  "joinArgs args = strings_Join args '' ''"

definition validationStrings :: "ValidationSpec \<Rightarrow> string list" where
  "validationStrings spec = map (\<lambda>command. joinArgs (cs_Args command)) (Commands spec)"

definition newAttempt :: "Executor \<Rightarrow> TaskRecord \<Rightarrow> Time \<Rightarrow> AttemptRecord" where
  "newAttempt e task now =
     \<lparr>ar_ID = 0, ar_TaskID = t_ID task, ar_AttemptNo = 1, ar_Status = ''running'',
      ar_AgentName = Agent_Name (ex_Agent e), ar_AgentExitCode = 0, ar_ValidationExitCode = 0,
      ar_StartedAt = now, ar_FinishedAt = 0, ar_SummaryJSON = [], ar_DiffStatsJSON = [],
      ar_ArtifactsJSON = []\<rparr>"

definition agentRequest :: "Executor \<Rightarrow> TaskRecord \<Rightarrow> Workspace \<Rightarrow> ValidationSpec \<Rightarrow> Request" where
  "agentRequest e task workspace spec =
     \<lparr>req_SchemaVersion = 1, req_RunID = rc_RunID (ex_RunContext e), req_TaskID = t_ID task,
      req_TaskType = t_TaskType task, req_Tool = t_Tool task,
      req_RepoPath = rc_RepoPath (ex_RunContext e), req_WorkspacePath = ws_Path workspace,
      req_AllowedPaths = AllowedPaths (rc_Config (ex_RunContext e)),
      req_ReadOnlyPaths = [''.git'', rc_ArtifactRoot (ex_RunContext e)], req_Targets = [],
      req_Instructions = t_Description task, req_Validation = validationStrings spec\<rparr>"

text \<open>How one pass through the body of the loop ends: the worker returns, the loop goes
  on, or the goroutine panics (calling \<open>Run\<close> on a \<open>nil\<close> runner).\<close>

datatype 'a step = Return 'a | Next 'a | Panicked

text \<open>Lines 97 to 116: the agent has been invoked with outcome \<open>agentRes\<close>; validate,
  decide, record, and perhaps run a checkpoint.\<close>

definition settle ::
  "host \<Rightarrow> Executor \<Rightarrow> iteration_world \<Rightarrow> TaskRecord \<Rightarrow> int \<Rightarrow> Workspace \<Rightarrow> ValidationSpec \<Rightarrow>
   agent_error + Result \<Rightarrow> SQLiteStore \<times> checkpointTracker \<Rightarrow> (SQLiteStore \<times> checkpointTracker) step"
where
  "settle h e w task attemptID workspace spec agentRes st =
     (case runValidation (h_Join h) (rc_RunnerRegistry (ex_RunContext e)) (w_os w) spec
             (ws_Path workspace) of
        None \<Rightarrow> Panicked
      | Some validationExit \<Rightarrow>
          (let status = (if isl agentRes \<or> validationExit \<noteq> 0 then ''failed'' else ''succeeded'');
               s3 = snd (FinishAttempt (w_finish_fault w) (w_finish_time w) (fst st) attemptID
                           status [] validationExit);
               s4 = (if status = ''succeeded''
                     then snd (UpdateTaskStatus (w_update_fault w) (w_update_time w) s3
                                 (t_ID task) ''succeeded'' [])
                     else snd (UpdateTaskStatus (w_update_fault w) (w_update_time w) s3
                                 (t_ID task) ''blocked'' []));
               (run, checkpoint) = ShouldRun (snd st) (w_now1 w) (w_now2 w);
               s5 = (if run then snd (runCheckpoint e w s4) else s4)
           in Next (s5, checkpoint)))"

text \<open>The body of the loop of \<open>runWorker\<close>.  The errors of \<open>UpdateTaskStatus\<close>,
  \<open>FinishAttempt\<close>, \<open>FinalizeWorkspace\<close> and \<open>runCheckpoint\<close> are dropped, as the
  code drops them.\<close>

definition workerIteration ::
  "host \<Rightarrow> Executor \<Rightarrow> string \<Rightarrow> iteration_world \<Rightarrow> SQLiteStore \<times> checkpointTracker \<Rightarrow>
   (SQLiteStore \<times> checkpointTracker) step"
where
  \<open>workerIteration h e workerID w st =
     (case ClaimNextTask (w_claim_fault w) (w_claim_time w) (fst st)
             (rc_RunID (ex_RunContext e)) workerID of
        (Inl err, s1) \<Rightarrow> Return (s1, snd st)
      | (Inr None, s1) \<Rightarrow> Return (s1, snd st)
      | (Inr (Some task), s1) \<Rightarrow>
          (case CreateAttempt (w_attempt_fault w) s1 (newAttempt e task (w_attempt_time w)) of
             (Inl err, s2) \<Rightarrow>
               Return (snd (UpdateTaskStatus (w_update_fault w) (w_update_time w) s2 (t_ID task)
                              ''blocked'' ''{"error":"failed to create attempt"}''), snd st)
           | (Inr attemptID, s2) \<Rightarrow>
               (case w_prepare w of
                  None \<Rightarrow>
                    (let s3 = snd (UpdateTaskStatus (w_update_fault w) (w_update_time w) s2
                                     (t_ID task) ''blocked''
                                     ''{"error":"failed to prepare workspace"}'');
                         s4 = snd (FinishAttempt (w_finish_fault w) (w_finish_time w) s3
                                     attemptID ''failed'' ''{"error":"workspace failure"}'' 1)
                     in Return (s4, snd st))
                | Some workspace \<Rightarrow>
                    (case validationSpec (h_Unmarshal h) (t_ValidationJSON task) of
                       None \<Rightarrow>
                         (let s3 = snd (UpdateTaskStatus (w_update_fault w) (w_update_time w) s2
                                          (t_ID task) ''blocked''
                                          ''{"error":"invalid validation spec"}'');
                              s4 = snd (FinishAttempt (w_finish_fault w) (w_finish_time w) s3
                                          attemptID ''failed''
                                          ''{"error":"validation spec failure"}'' 1)
                          in Return (s4, snd st))
                     | Some spec \<Rightarrow>
                         (let agentReq = agentRequest e task workspace spec;
                              agentRes = Agent_Invoke (h_Fields h) (h_CodexCmd h) (w_child w)
                                           (ex_Agent e) agentReq
                          in settle h e w task attemptID workspace spec agentRes (s2, snd st))))))\<close>

text \<open>
  The loop of \<open>runWorker\<close>.  Checkpoints can add tasks without bound, so the loop need
  not end: each iteration consumes one \<open>iteration_world\<close>, and \<open>None\<close> says that the
  worker was still looping when the given ones ran out.
\<close>

datatype 'a worker_end = Returned 'a | Crashed

fun runWorker ::
  "host \<Rightarrow> Executor \<Rightarrow> string \<Rightarrow> iteration_world list \<Rightarrow> SQLiteStore \<times> checkpointTracker \<Rightarrow>
   (SQLiteStore \<times> checkpointTracker) worker_end option"
where
  "runWorker h e workerID [] st = None"
| "runWorker h e workerID (w # ws) st =
     (case workerIteration h e workerID w st of
        Return st' \<Rightarrow> Some (Returned st')
      | Panicked \<Rightarrow> Some Crashed
      | Next st' \<Rightarrow> runWorker h e workerID ws st')"

section \<open>Workers running side by side\<close>

text \<open>
  \<open>Executor.Run\<close> starts the workers as goroutines over one store.  The store runs each
  call as one transaction (\<open>ClaimNextTask\<close> opens a serializable transaction,
  \<open>InsertTasks\<close> a transaction, \<open>UpdateTaskStatus\<close> is a single statement), so what
  concurrent workers do to the table of tasks is a sequence of store calls, of any
  workers in any order.  The calls that touch the table: a claim, a status update, and
  the insertion of tasks by a checkpoint.
\<close>

datatype store_call =
  Claim string string Time db_fault
  | Update int string string Time db_fault
  | Insert "TaskRecord list" db_fault

text \<open>Running a sequence of calls from a store: the store at the end, and the log of the
  claims that returned a task, each with its worker.\<close>

fun runCalls ::
  "store_call list \<Rightarrow> SQLiteStore \<Rightarrow> (string \<times> TaskRecord) list \<times> SQLiteStore"
where
  "runCalls [] s = ([], s)"
| "runCalls (Claim runID workerID now fault # rest) s =
     (case ClaimNextTask fault now s runID workerID of
        (Inr (Some task), s1) \<Rightarrow>
          (let (claimed, s2) = runCalls rest s1 in ((workerID, task) # claimed, s2))
      | (other, s1) \<Rightarrow> runCalls rest s1)"
| "runCalls (Update taskID status extraJSON now fault # rest) s =
     runCalls rest (snd (UpdateTaskStatus fault now s taskID status extraJSON))"
| "runCalls (Insert tasks fault # rest) s =
     runCalls rest (snd (InsertTasks fault s tasks))"

text \<open>The status updates of the worker never write \<open>queued\<close>.\<close>

fun noRequeue :: "store_call \<Rightarrow> bool" where
  "noRequeue (Update taskID status extraJSON now fault) = (status \<noteq> ''queued'')"
| "noRequeue other = True"

section \<open>Notions used in the statements\<close>

text \<open>One step of the accumulation in \<open>runValidation\<close>, on the pair that \<open>Run\<close> returned.\<close>

definition accumulate :: "int \<Rightarrow> ExecResult \<times> run_error option \<Rightarrow> int" where
  "accumulate ec r =
     (if er_ExitCode (fst r) \<noteq> 0 then er_ExitCode (fst r) else if snd r \<noteq> None then 1 else ec)"

text \<open>An id can still be handed out by a claim: it belongs to a queued row, or it has
  not been given to any row yet.\<close>

definition claimable :: "SQLiteStore \<Rightarrow> int \<Rightarrow> bool" where
  "claimable s i \<longleftrightarrow>
     (\<exists>r \<in> set (db_tasks s). r_id r = i \<and> r_status r = ''queued'') \<or> db_tasks_seq s < i"

text \<open>The task with id \<open>i\<close> has left the queue and carries the given claimant and claim
  time.\<close>

definition settledAs :: "SQLiteStore \<Rightarrow> int \<Rightarrow> string option \<Rightarrow> Time option \<Rightarrow> bool" where
  "settledAs s i claimant at \<longleftrightarrow>
     (\<exists>row. taskRow s i = Some row \<and> r_status row \<noteq> ''queued'' \<and>
            r_claimed_by row = claimant \<and> r_claimed_at row = at)"

text \<open>
  The agent invocation returns no error and every validation command exits zero, for
  the task of an iteration (whose workspace was prepared and whose spec was parsed).
\<close>

definition agentAndValidationPass ::
  "host \<Rightarrow> Executor \<Rightarrow> string \<Rightarrow> iteration_world \<Rightarrow> TaskRecord \<Rightarrow> bool"
where
  "agentAndValidationPass h e root w task =
     (case w_prepare w of
        None \<Rightarrow> False
      | Some workspace \<Rightarrow>
          (case validationSpec (h_Unmarshal h) (t_ValidationJSON task) of
             None \<Rightarrow> False
           | Some spec \<Rightarrow>
               \<not> isl (Agent_Invoke (h_Fields h) (h_CodexCmd h) (w_child w) (ex_Agent e)
                         (agentRequest e task workspace spec)) \<and>
               list_all exitsZero
                 (validationTrace (h_Join h) root (w_os w) (ws_Path workspace) 0 (Commands spec))))"

text \<open>The statuses of the tasks and of the attempts, in table order, when the worker
  has returned.\<close>

fun statusesAtReturn ::
  "(SQLiteStore \<times> checkpointTracker) worker_end option \<Rightarrow> (string list \<times> string list) option"
where
  "statusesAtReturn (Some (Returned st)) =
     Some (map r_status (db_tasks (fst st)), map at_status (db_attempts (fst st)))"
| "statusesAtReturn other = None"

text \<open>The primary-key discipline of the table of attempts: no id exceeds the counter.\<close>

definition attemptKeysOK :: "SQLiteStore \<Rightarrow> bool" where
  "attemptKeysOK s \<longleftrightarrow> list_all (\<lambda>a. at_id a \<le> db_attempts_seq s) (db_attempts s)"

section \<open>Concrete inputs\<close>

definition exampleCommand :: Command where
  "exampleCommand =
     \<lparr>cmd_Args = [''pytest'', ''-q''], cmd_Env = [], cmd_Cwd = ''.'', cmd_TimeoutSeconds = 0,
      cmd_AllowNonZero = True, cmd_StdoutPath = [], cmd_StderrPath = [], cmd_CombinedPath = []\<rparr>"

text \<open>The files are created and the process ends with the given exit code.\<close>

definition exited :: "int \<Rightarrow> os_outcome" where
  "exited c =
     \<lparr>create_stdout_ok = True, create_stderr_ok = True, create_combined_ok = True,
      proc_err = (if c = 0 then None else Some (ExitError c))\<rparr>"

text \<open>Two validation commands; the first exits with 2, the second with 1.\<close>

definition exampleSpec :: ValidationSpec where
  "exampleSpec =
     \<lparr>Commands =
        [\<lparr>cs_Runner = ''python'', cs_Args = [''python'', ''-m'', ''pytest''], cs_Env = [],
          cs_Cwd = [], cs_TimeoutSeconds = 0\<rparr>,
         \<lparr>cs_Runner = ''generic'', cs_Args = [''make'', ''lint''], cs_Env = [],
          cs_Cwd = [], cs_TimeoutSeconds = 0\<rparr>],
      SuccessCriteria = \<lparr>RequireExitCode0 = True, MaxNewFindings = 0\<rparr>\<rparr>"

definition exits_2_then_1 :: "nat \<Rightarrow> Command \<Rightarrow> os_outcome" where
  "exits_2_then_1 i cmd = (if i = 0 then exited 2 else exited 1)"

definition exampleRow :: "int \<Rightarrow> int \<Rightarrow> Time \<Rightarrow> string \<Rightarrow> task_row" where
  "exampleRow i prio created status =
     \<lparr>r_id = i, r_run_id = ''run-1'', r_tool = ''pytest'', r_task_type = ''fix'',
      r_priority = prio, r_status = status, r_fingerprint = [], r_title = ''t'',
      r_description = [], r_targets_json = ''{}'', r_validation_json = ''{}'',
      r_retry_policy_json = ''{}'', r_depends_on_json = [], r_extra_json = [],
      r_claimed_by = None, r_claimed_at = None, r_created_at = created, r_updated_at = created\<rparr>"

definition exampleStore :: SQLiteStore where
  "exampleStore =
     \<lparr>db_tasks = [exampleRow 1 50 10 ''queued'', exampleRow 2 100 20 ''queued'',
                  exampleRow 3 100 15 ''queued''],
      db_tasks_seq = 3, db_attempts = [], db_attempts_seq = 0, db_findings = [],
      db_findings_seq = 0\<rparr>"

definition emptyStore :: SQLiteStore where
  "emptyStore =
     \<lparr>db_tasks = [], db_tasks_seq = 0, db_attempts = [], db_attempts_seq = 0,
      db_findings = [], db_findings_seq = 0\<rparr>"

definition claimedRow :: "task_row \<Rightarrow> string \<Rightarrow> Time \<Rightarrow> task_row" where
  "claimedRow row workerID now =
     row\<lparr>r_status := ''running'', r_claimed_by := Some workerID, r_claimed_at := Some now,
         r_updated_at := now\<rparr>"

definition exampleCalls :: "store_call list" where
  "exampleCalls =
     [Claim ''run-1'' ''worker-1'' 100 NoFault, Claim ''run-1'' ''worker-2'' 101 NoFault,
      Update 3 ''blocked'' [] 102 NoFault, Claim ''run-1'' ''worker-1'' 103 NoFault,
      Claim ''run-1'' ''worker-2'' 104 NoFault]"

text \<open>The example store after worker-1 has claimed task 3 at time 100.\<close>

definition exampleStoreClaimed :: SQLiteStore where
  "exampleStoreClaimed =
     exampleStore\<lparr>db_tasks := [exampleRow 1 50 10 ''queued'', exampleRow 2 100 20 ''queued'',
                                claimedRow (exampleRow 3 100 15 ''queued'') ''worker-1'' 100]\<rparr>"

text \<open>A request of schema version 1 and a child process that prints a result of another
  schema version, run and task.\<close>

definition exampleRequest :: Request where
  "exampleRequest =
     \<lparr>req_SchemaVersion = 1, req_RunID = ''run-1'', req_TaskID = 3, req_TaskType = ''fix'',
      req_Tool = ''pytest'', req_RepoPath = ''/repo'', req_WorkspacePath = ''/repo'',
      req_AllowedPaths = [''src'', ''tests''], req_ReadOnlyPaths = [''.git'', ''artifacts''],
      req_Targets = [], req_Instructions = ''fix it'', req_Validation = [''python -m pytest'']\<rparr>"

definition mismatchedResult :: Result where
  "mismatchedResult =
     \<lparr>res_SchemaVersion = 2, res_RunID = ''run-0'', res_TaskID = 99, res_Status = ''success'',
      res_Summary = ''done'', res_FilesChanged = []\<rparr>"

definition printsMismatch :: "string list \<Rightarrow> Request \<Rightarrow> child_outcome" where
  "printsMismatch command req = Stdout mismatchedResult"

definition cliAgent :: Agent where
  "cliAgent = CommandAgent \<lparr>ca_name = ''cli'', ca_command = [''my-agent'']\<rparr>"

text \<open>A profile with neither a lock file nor a virtual environment; a join by slashes;
  repositories with a uv lock, with and without a virtual environment.\<close>

definition systemProfile :: Profile where
  "systemProfile =
     \<lparr>RepoPath = ''/repo'', PythonManager = ''system'', HasUVLock = False,
      HasPoetryLock = False, VenvPath = []\<rparr>"

definition slashJoin :: "string list \<Rightarrow> string" where
  "slashJoin parts = strings_Join parts ''/''"

definition hasUvAndVenv :: "string \<Rightarrow> bool" where
  "hasUvAndVenv path \<longleftrightarrow> path = ''/repo/uv.lock'' \<or> path = ''/repo/.venv/bin/python''"

definition hasUvOnly :: "string \<Rightarrow> bool" where
  "hasUvOnly path \<longleftrightarrow> path = ''/repo/uv.lock''"


text \<open>A host, an executor with the local agent, and worlds for the worker: every
  database call succeeds, every validation command exits zero, no checkpoint is due;
  the workspace is prepared or not.\<close>

definition oneField :: "string \<Rightarrow> string list" where
  "oneField s = [s]"

definition parsesToExample :: "string \<Rightarrow> ValidationSpec option" where
  "parsesToExample validationJSON = Some exampleSpec"

definition exampleHost :: host where
  "exampleHost =
     \<lparr>h_Join = slashJoin, h_Fields = oneField, h_CodexCmd = [], h_Unmarshal = parsesToExample\<rparr>"

definition exampleExecutor :: Executor where
  "exampleExecutor =
     \<lparr>ex_RunContext =
        \<lparr>rc_RunID = ''run-1'', rc_RepoPath = ''/repo'', rc_ArtifactRoot = ''artifacts'',
         rc_RunnerRegistry = NewRegistry ''artifacts'',
         rc_Config = \<lparr>MaxWorkers = 1, MaxAgentWorkers = 1, RetryCap = 2, CheckpointMins = 30,
                      AllowedPaths = [''src'', ''tests''], GitStrategy = ''worktree'',
                      PytestEnabled = True, CoverageEnabled = True\<rparr>\<rparr>,
      ex_Agent = Local, ex_Plugins = [''pytest'', ''coverage'']\<rparr>"

definition exitsZeroAlways :: "nat \<Rightarrow> Command \<Rightarrow> os_outcome" where
  "exitsZeroAlways i cmd = exited 0"

definition pluginFails :: "string \<Rightarrow> plugin_pass" where
  "pluginFails plugin =
     \<lparr>pp_findings = None, pp_findings_fault = NoFault, pp_tasks = None, pp_tasks_fault = NoFault\<rparr>"

definition exampleWorld ::
  "Workspace option \<Rightarrow> (nat \<Rightarrow> Command \<Rightarrow> os_outcome) \<Rightarrow> iteration_world" where
  "exampleWorld prepared os =
     \<lparr>w_claim_fault = NoFault, w_claim_time = 100, w_attempt_fault = NoFault,
      w_attempt_time = 100, w_prepare = prepared, w_child = printsMismatch, w_os = os,
      w_finish_fault = NoFault, w_finish_time = 101, w_update_fault = NoFault,
      w_update_time = 101, w_now1 = 1000000000, w_now2 = 1000000000, w_emit_started_ok = True,
      w_plugin = pluginFails, w_emit_finished_ok = True\<rparr>"

definition exampleWorkspace :: Workspace where
  "exampleWorkspace = \<lparr>ws_Path = ''artifacts/worktrees/task-2'', ws_Branch = ''atqos/task-2'',
                        ws_Worktree = True\<rparr>"

definition twoTaskStore :: SQLiteStore where
  "twoTaskStore =
     \<lparr>db_tasks = [exampleRow 1 100 10 ''queued'', exampleRow 2 100 20 ''queued''],
      db_tasks_seq = 2, db_attempts = [], db_attempts_seq = 0, db_findings = [],
      db_findings_seq = 0\<rparr>"

definition exampleTracker :: checkpointTracker where
  "exampleTracker = newCheckpointTracker 30 0"

text \<open>The store of two tasks after worker-1 has claimed task 1 at time 100, and the task
  record that the claim returns.\<close>

definition twoTaskStoreClaimed :: SQLiteStore where
  "twoTaskStoreClaimed =
     twoTaskStore\<lparr>db_tasks := [claimedRow (exampleRow 1 100 10 ''queued'') ''worker-1'' 100,
                                exampleRow 2 100 20 ''queued'']\<rparr>"

definition exampleClaimedTask :: TaskRecord where
  "exampleClaimedTask = scanTask ''run-1'' (claimedRow (exampleRow 1 100 10 ''queued'') ''worker-1'' 100)"

definition twoTaskStoreAttempted :: SQLiteStore where
  "twoTaskStoreAttempted =
     twoTaskStoreClaimed
       \<lparr>db_attempts := [newAttemptRow 1 (newAttempt exampleExecutor exampleClaimedTask 100)],
        db_attempts_seq := 1\<rparr>"


text \<open>A world in which the claim loses the database (its \<open>UPDATE\<close> fails), and one in
  which the two final writes of the iteration fail; everything else succeeds.\<close>

definition busyClaimWorld :: iteration_world where
  "busyClaimWorld = (exampleWorld (Some exampleWorkspace) exitsZeroAlways)\<lparr>w_claim_fault := FailExec\<rparr>"

definition failedWritesWorld :: iteration_world where
  "failedWritesWorld =
     (exampleWorld (Some exampleWorkspace) exitsZeroAlways)
       \<lparr>w_finish_fault := FailExec, w_update_fault := FailExec\<rparr>"

section \<open>Properties\<close>

subsection \<open>The runner and the validation loop\<close>

lemma Get_NewRegistry: "Get (NewRegistry root) name = Some (NewGenericRunner root)"
  by (simp add: Get_def NewRegistry_def Let_def)

lemma loop_foldl:
  "runValidation_loop Join (NewRegistry root) os ws i cmds ec =
     Some (foldl accumulate ec (validationTrace Join root os ws i cmds))"
  by (induction cmds arbitrary: i ec)
     (simp_all add: Get_NewRegistry Let_def accumulate_def split: prod.splits)

lemma foldl_acc_zero:
  "foldl accumulate ec rs = 0 \<longleftrightarrow> ec = 0 \<and> (\<forall>r \<in> set rs. exitsZero r)"
  by (induction rs arbitrary: ec) (auto simp: accumulate_def exitsZero_def)

lemma foldl_acc_last:
  "foldl accumulate ec rs = (case rev (filter (\<lambda>r. \<not> exitsZero r) rs) of [] \<Rightarrow> ec | r # _ \<Rightarrow> observedCode r)"
proof (induction rs rule: rev_induct)
  case Nil show ?case by simp
next
  case (snoc x xs)
  then show ?case by (auto simp: accumulate_def exitsZero_def observedCode_def split: list.splits)
qed

subsection \<open>Selection of the next task\<close>

lemma firstInOrder_None: "firstInOrder rs = None \<longleftrightarrow> rs = []"
  by (induction rs) (auto split: option.splits)

lemma firstInOrder_mem: "firstInOrder rs = Some b \<Longrightarrow> b \<in> set rs"
  by (induction rs arbitrary: b) (auto split: option.splits if_splits)

lemma sortsBefore_asym: "sortsBefore a b \<Longrightarrow> \<not> sortsBefore b a"
  by (auto simp: sortsBefore_def)

lemma sortsBefore_cotrans: "sortsBefore x r \<Longrightarrow> sortsBefore x b \<or> sortsBefore b r"
  by (auto simp: sortsBefore_def)

lemma firstInOrder_best: "firstInOrder rs = Some b \<Longrightarrow> r \<in> set rs \<Longrightarrow> \<not> sortsBefore r b"
proof (induction rs arbitrary: b)
  case Nil
  then show ?case by simp
next
  case (Cons x xs)
  show ?case
  proof (cases "firstInOrder xs")
    case None
    then have "xs = []" by (simp add: firstInOrder_None)
    with Cons.prems None show ?thesis by (auto simp: sortsBefore_def)
  next
    case (Some c)
    show ?thesis
    proof (cases "sortsBefore c x")
      case True
      with Some Cons.prems have b: "b = c" by simp
      from Cons.prems(2) consider "r = x" | "r \<in> set xs" by auto
      then show ?thesis
      proof cases
        case 1 with True b show ?thesis using sortsBefore_asym by blast
      next
        case 2 with Cons.IH [OF Some] b show ?thesis by blast
      qed
    next
      case False
      with Some Cons.prems have b: "b = x" by simp
      from Cons.prems(2) consider "r = x" | "r \<in> set xs" by auto
      then show ?thesis
      proof cases
        case 1 with b show ?thesis by (simp add: sortsBefore_def)
      next
        case 2
        then have "\<not> sortsBefore r c" using Cons.IH [OF Some] by blast
        with False b show ?thesis using sortsBefore_cotrans by blast
      qed
    qed
  qed
qed

lemma selectNextQueued_None:
  "selectNextQueued rows runID = None \<longleftrightarrow> (\<forall>r \<in> set rows. \<not> isQueuedOf runID r)"
  by (simp add: selectNextQueued_def firstInOrder_None filter_empty_conv)

lemma selectNextQueued_Some:
  assumes "selectNextQueued rows runID = Some row"
  shows "row \<in> set rows" "isQueuedOf runID row"
    "r \<in> set rows \<Longrightarrow> isQueuedOf runID r \<Longrightarrow> \<not> sortsBefore r row"
  using assms firstInOrder_mem [of "filter (isQueuedOf runID) rows" row]
    firstInOrder_best [of "filter (isQueuedOf runID) rows" row r]
  by (auto simp: selectNextQueued_def)

lemma ClaimNextTask_cases:
  "ClaimNextTask fault now s runID workerID = (res, s') \<Longrightarrow>
   (res = Inl DbError \<and> s' = s) \<or> (res = Inr None \<and> s' = s \<and> selectNextQueued (db_tasks s) runID = None) \<or>
   (\<exists>row. selectNextQueued (db_tasks s) runID = Some row \<and> fault = NoFault \<and>
      res = Inr (Some ((scanTask runID row)\<lparr>t_Status := ''running'', t_ClaimedBy := workerID,
                                           t_ClaimedAt := now, t_UpdatedAt := now\<rparr>)) \<and>
      s' = s\<lparr>db_tasks := map (markRunning (r_id row) workerID now) (db_tasks s)\<rparr>)"
  by (cases fault) (auto simp: ClaimNextTask_def Let_def scanTask_def split: option.splits if_splits)

subsection \<open>Primary keys\<close>

lemma markRunning_id [simp]: "r_id (markRunning i w now r) = r_id r"
  by (simp add: markRunning_def)

lemma setStatus_id [simp]: "r_id (setStatus i st ex now r) = r_id r"
  by (simp add: setStatus_def)

lemma newTaskRows_bounds:
  "r \<in> set (newTaskRows seq ts) \<Longrightarrow> seq < r_id r \<and> r_id r \<le> seq + int (length ts)"
  by (induction ts arbitrary: seq) (fastforce simp: newTaskRow_def)+

lemma newTaskRows_distinct: "distinct (map r_id (newTaskRows seq ts))"
proof (induction ts arbitrary: seq)
  case Nil show ?case by simp
next
  case (Cons t ts)
  have "seq + 1 \<notin> r_id ` set (newTaskRows (seq + 1) ts)"
    using newTaskRows_bounds [of _ "seq + 1" ts] by fastforce
  then show ?case using Cons.IH [of "seq + 1"] by (simp add: newTaskRow_def)
qed

lemma keysOK_Claim:
  "keysOK s \<Longrightarrow> keysOK (snd (ClaimNextTask fault now s runID workerID))"
  by (auto simp: ClaimNextTask_def keysOK_def Let_def list_all_iff o_def split: option.splits)

lemma keysOK_Update:
  "keysOK s \<Longrightarrow> keysOK (snd (UpdateTaskStatus fault now s taskID status extraJSON))"
  by (auto simp: UpdateTaskStatus_def keysOK_def list_all_iff o_def)

lemma keysOK_Insert:
  "keysOK s \<Longrightarrow> keysOK (snd (InsertTasks fault s ts))"
  using newTaskRows_bounds [of _ "db_tasks_seq s" ts] newTaskRows_distinct [of "db_tasks_seq s" ts]
  by (fastforce simp: InsertTasks_def keysOK_def list_all_iff)

subsection \<open>Claims along a sequence of store calls\<close>

lemma claimable_after_Claim:
  "claimable (snd (ClaimNextTask fault now s runID workerID)) i \<Longrightarrow> claimable s i"
  by (auto simp: ClaimNextTask_def claimable_def Let_def markRunning_def split: option.splits if_splits)

lemma claimed_was_claimable:
  assumes "ClaimNextTask fault now s runID workerID = (Inr (Some t), s1)"
  shows "claimable s (t_ID t)"
proof -
  from ClaimNextTask_cases [OF assms] obtain row where
    sel: "selectNextQueued (db_tasks s) runID = Some row" and t: "t_ID t = r_id row"
    by (auto simp: scanTask_def)
  from selectNextQueued_Some(1,2) [OF sel] t show ?thesis
    by (auto simp: claimable_def isQueuedOf_def)
qed

lemma claimed_not_claimable:
  assumes "keysOK s" "ClaimNextTask fault now s runID workerID = (Inr (Some t), s1)"
  shows "\<not> claimable s1 (t_ID t)"
proof -
  from ClaimNextTask_cases [OF assms(2)] obtain row where
    sel: "selectNextQueued (db_tasks s) runID = Some row" and t: "t_ID t = r_id row"
    and s1: "s1 = s\<lparr>db_tasks := map (markRunning (r_id row) workerID now) (db_tasks s)\<rparr>"
    by (auto simp: scanTask_def)
  have mem: "row \<in> set (db_tasks s)" by (rule selectNextQueued_Some(1) [OF sel])
  with assms(1) have "r_id row \<le> db_tasks_seq s" by (auto simp: keysOK_def list_all_iff)
  moreover have "\<And>r. r \<in> set (db_tasks s) \<Longrightarrow> r_id r = r_id row \<Longrightarrow>
      r_status (markRunning (r_id row) workerID now r) \<noteq> ''queued''"
    by (simp add: markRunning_def)
  ultimately show ?thesis unfolding claimable_def s1 t by auto
qed

lemma claimable_after_Update:
  "status \<noteq> ''queued'' \<Longrightarrow> claimable (snd (UpdateTaskStatus fault now s taskID status extraJSON)) i
   \<Longrightarrow> claimable s i"
  by (auto simp: UpdateTaskStatus_def claimable_def setStatus_def split: if_splits)

lemma claimable_after_Insert:
  "keysOK s \<Longrightarrow> claimable (snd (InsertTasks fault s ts)) i \<Longrightarrow> claimable s i"
  using newTaskRows_bounds [of _ "db_tasks_seq s" ts]
  by (fastforce simp: InsertTasks_def claimable_def split: if_splits)

lemma runCalls_claims:
  "keysOK s \<Longrightarrow> \<forall>c \<in> set calls. noRequeue c \<Longrightarrow>
   distinct (map (\<lambda>e. t_ID (snd e)) (fst (runCalls calls s))) \<and>
   (\<forall>e \<in> set (fst (runCalls calls s)). claimable s (t_ID (snd e)))"
proof (induction calls arbitrary: s)
  case Nil
  show ?case by simp
next
  case (Cons c calls)
  show ?case
  proof (cases c)
    case (Claim runID workerID now fault)
    obtain res s1 where cl: "ClaimNextTask fault now s runID workerID = (res, s1)"
      by (cases "ClaimNextTask fault now s runID workerID")
    have k1: "keysOK s1" using keysOK_Claim [OF Cons.prems(1), of fault now runID workerID] cl by simp
    have IH: "distinct (map (\<lambda>e. t_ID (snd e)) (fst (runCalls calls s1))) \<and>
              (\<forall>e \<in> set (fst (runCalls calls s1)). claimable s1 (t_ID (snd e)))"
      using Cons.IH [OF k1] Cons.prems(2) by simp
    have mono: "\<And>i. claimable s1 i \<Longrightarrow> claimable s i"
      using claimable_after_Claim [of fault now s runID workerID] cl by simp
    show ?thesis
    proof (cases "\<exists>t. res = Inr (Some t)")
      case True
      then obtain t where res: "res = Inr (Some t)" by blast
      have a: "claimable s (t_ID t)" using claimed_was_claimable cl res by blast
      have b: "\<not> claimable s1 (t_ID t)" using claimed_not_claimable [OF Cons.prems(1)] cl res by blast
      have fstrun: "fst (runCalls (c # calls) s) = (workerID, t) # fst (runCalls calls s1)"
        using Claim cl res by (simp add: case_prod_unfold Let_def)
      show ?thesis unfolding fstrun using IH a b mono by auto
    next
      case False
      then have "runCalls (c # calls) s = runCalls calls s1"
        using Claim cl by (auto split: sum.splits option.splits)
      then show ?thesis using IH mono by auto
    qed
  next
    case (Update taskID status extraJSON now fault)
    let ?s1 = "snd (UpdateTaskStatus fault now s taskID status extraJSON)"
    have st: "status \<noteq> ''queued''" using Cons.prems(2) Update by simp
    have k1: "keysOK ?s1" by (rule keysOK_Update [OF Cons.prems(1)])
    show ?thesis using Cons.IH [OF k1] Cons.prems(2) Update claimable_after_Update [OF st]
      by auto
  next
    case (Insert ts fault)
    let ?s1 = "snd (InsertTasks fault s ts)"
    have k1: "keysOK ?s1" by (rule keysOK_Insert [OF Cons.prems(1)])
    show ?thesis using Cons.IH [OF k1] Cons.prems(2) Insert claimable_after_Insert [OF Cons.prems(1)]
      by auto
  qed
qed

lemma find_id_map:
  "(\<And>r. r_id (f r) = r_id r) \<Longrightarrow>
   find (\<lambda>r. r_id r = i) (map f rows) = map_option f (find (\<lambda>r. r_id r = i) rows)"
  by (induction rows) auto

lemma find_append_Some: "find P xs = Some x \<Longrightarrow> find P (xs @ ys) = Some x"
  by (induction xs) (auto split: if_splits)

lemma taskRow_Claim_settled:
  "taskRow s i = Some row \<Longrightarrow> r_status row \<noteq> ''queued'' \<Longrightarrow>
   taskRow (snd (ClaimNextTask fault now s runID workerID)) i = Some row"
  by (auto simp: ClaimNextTask_def taskRow_def Let_def find_id_map markRunning_def
      split: option.splits if_splits)

lemma taskRow_Update:
  "taskRow (snd (UpdateTaskStatus fault now s taskID status extraJSON)) i =
     (if fault = NoFault \<and> i = taskID
      then map_option (\<lambda>r. r\<lparr>r_status := status, r_extra_json := extraJSON, r_updated_at := now\<rparr>)
             (taskRow s i)
      else taskRow s i)"
proof -
  have *: "map_option (setStatus taskID status extraJSON now) (find (\<lambda>r. r_id r = i) (db_tasks s)) =
        (if i = taskID then map_option (\<lambda>r. r\<lparr>r_status := status, r_extra_json := extraJSON, r_updated_at := now\<rparr>)
             (find (\<lambda>r. r_id r = i) (db_tasks s)) else find (\<lambda>r. r_id r = i) (db_tasks s))"
    by (cases "find (\<lambda>r. r_id r = i) (db_tasks s)") (auto simp: setStatus_def dest: find_Some_iff [THEN iffD1])
  show ?thesis using *
    by (auto simp: UpdateTaskStatus_def taskRow_def find_id_map)
qed

lemma taskRow_Insert:
  "taskRow s i = Some row \<Longrightarrow> taskRow (snd (InsertTasks fault s ts)) i = Some row"
  by (auto simp: InsertTasks_def taskRow_def find_append_Some)

lemma settledAs_Claim: "settledAs s i claimant at \<Longrightarrow> settledAs (snd (ClaimNextTask fault now s runID workerID)) i claimant at"
  unfolding settledAs_def using taskRow_Claim_settled by blast

lemma settledAs_Update: "status \<noteq> ''queued'' \<Longrightarrow> settledAs s i claimant at \<Longrightarrow>
    settledAs (snd (UpdateTaskStatus fault now s taskID status extraJSON)) i claimant at"
  unfolding settledAs_def by (auto simp: taskRow_Update)

lemma settledAs_Insert: "settledAs s i claimant at \<Longrightarrow> settledAs (snd (InsertTasks fault s ts)) i claimant at"
  unfolding settledAs_def using taskRow_Insert by blast

lemma runCalls_settled:
  "\<forall>c \<in> set calls. noRequeue c \<Longrightarrow> settledAs s i claimant at \<Longrightarrow> settledAs (snd (runCalls calls s)) i claimant at"
proof (induction calls arbitrary: s)
  case Nil
  then show ?case by simp
next
  case (Cons c calls)
  show ?case
  proof (cases c)
    case (Claim runID workerID now fault)
    have "settledAs (snd (ClaimNextTask fault now s runID workerID)) i claimant at"
      by (rule settledAs_Claim [OF Cons.prems(2)])
    then have "settledAs (snd (runCalls calls (snd (ClaimNextTask fault now s runID workerID)))) i claimant at"
      using Cons.IH Cons.prems(1) by simp
    then show ?thesis using Claim
      by (cases "ClaimNextTask fault now s runID workerID")
         (auto simp: case_prod_unfold Let_def split: sum.splits option.splits)
  next
    case (Update taskID status extraJSON now fault)
    then have "status \<noteq> ''queued''" using Cons.prems(1) by simp
    from settledAs_Update [OF this Cons.prems(2)] show ?thesis
      using Cons.IH Cons.prems(1) Update by simp
  next
    case (Insert ts fault)
    from settledAs_Insert [OF Cons.prems(2)] show ?thesis
      using Cons.IH Cons.prems(1) Insert by simp
  qed
qed

lemma find_distinct_id:
  "distinct (map r_id rows) \<Longrightarrow> row \<in> set rows \<Longrightarrow> find (\<lambda>r. r_id r = r_id row) rows = Some row"
  by (induction rows) (auto simp: image_iff)

lemma claimed_settled:
  assumes "keysOK s" "ClaimNextTask fault now s runID workerID = (Inr (Some t), s1)"
  shows "settledAs s1 (t_ID t) (Some workerID) (Some now)"
proof -
  from ClaimNextTask_cases [OF assms(2)] obtain row where
    sel: "selectNextQueued (db_tasks s) runID = Some row" and t: "t_ID t = r_id row"
    and s1: "s1 = s\<lparr>db_tasks := map (markRunning (r_id row) workerID now) (db_tasks s)\<rparr>"
    by (auto simp: scanTask_def)
  have mem: "row \<in> set (db_tasks s)" and q: "r_status row = ''queued''"
    using selectNextQueued_Some(1,2) [OF sel] by (auto simp: isQueuedOf_def)
  have "find (\<lambda>r. r_id r = r_id row) (db_tasks s) = Some row"
    using assms(1) mem by (simp add: keysOK_def find_distinct_id)
  then have "taskRow s1 (t_ID t) = Some (markRunning (r_id row) workerID now row)"
    by (simp add: taskRow_def s1 t find_id_map)
  then show ?thesis using q by (simp add: settledAs_def markRunning_def)
qed

lemma runCalls_claimants:
  "keysOK s \<Longrightarrow> \<forall>c \<in> set calls. noRequeue c \<Longrightarrow>
   \<forall>e \<in> set (fst (runCalls calls s)).
     t_Status (snd e) = ''running'' \<and> t_ClaimedBy (snd e) = fst e \<and>
     settledAs (snd (runCalls calls s)) (t_ID (snd e)) (Some (fst e)) (Some (t_ClaimedAt (snd e)))"
proof (induction calls arbitrary: s)
  case Nil
  show ?case by simp
next
  case (Cons c calls)
  show ?case
  proof (cases c)
    case (Claim runID workerID now fault)
    obtain res s1 where cl: "ClaimNextTask fault now s runID workerID = (res, s1)"
      by (cases "ClaimNextTask fault now s runID workerID")
    have k1: "keysOK s1" using keysOK_Claim [OF Cons.prems(1), of fault now runID workerID] cl by simp
    note IH = Cons.IH [OF k1]
    show ?thesis
    proof (cases "\<exists>t. res = Inr (Some t)")
      case True
      then obtain t where res: "res = Inr (Some t)" by blast
      have run: "runCalls (c # calls) s = ((workerID, t) # fst (runCalls calls s1), snd (runCalls calls s1))"
        using Claim cl res by (simp add: case_prod_unfold Let_def)
      have t: "t_Status t = ''running'' \<and> t_ClaimedBy t = workerID \<and> t_ClaimedAt t = now"
        using ClaimNextTask_cases [OF cl] res by auto
      have "settledAs s1 (t_ID t) (Some workerID) (Some now)"
        using claimed_settled [OF Cons.prems(1)] cl res by blast
      then have "settledAs (snd (runCalls calls s1)) (t_ID t) (Some workerID) (Some now)"
        using runCalls_settled Cons.prems(2) by simp
      then show ?thesis unfolding run using IH Cons.prems(2) t by simp
    next
      case False
      then have "runCalls (c # calls) s = runCalls calls s1"
        using Claim cl by (auto split: sum.splits option.splits)
      then show ?thesis using IH Cons.prems(2) by simp
    qed
  next
    case (Update taskID status extraJSON now fault)
    show ?thesis using Cons.IH [OF keysOK_Update [OF Cons.prems(1)]] Cons.prems(2) Update by simp
  next
    case (Insert ts fault)
    show ?thesis using Cons.IH [OF keysOK_Insert [OF Cons.prems(1)]] Cons.prems(2) Insert by simp
  qed
qed

subsection \<open>A further claim\<close>

lemma failed_claim:
  "fault \<noteq> NoFault \<Longrightarrow>
   snd (ClaimNextTask fault now s runID workerID) = s \<and>
   (fst (ClaimNextTask fault now s runID workerID) = Inl DbError \<or>
    fst (ClaimNextTask fault now s runID workerID) = Inr None)"
  by (cases fault) (auto simp: ClaimNextTask_def Let_def split: option.splits)

lemma empty_queue_claim:
  "ClaimNextTask NoFault now s runID workerID = (Inr None, s) \<longleftrightarrow>
   (\<forall>r \<in> set (db_tasks s). \<not> isQueuedOf runID r)"
  by (auto simp: ClaimNextTask_def Let_def selectNextQueued_None [symmetric] split: option.splits)

lemma queued_claim:
  "(\<exists>task s2. ClaimNextTask NoFault now s runID workerID = (Inr (Some task), s2)) \<longleftrightarrow>
   (\<exists>r \<in> set (db_tasks s). isQueuedOf runID r)"
proof (cases "selectNextQueued (db_tasks s) runID")
  case None
  then show ?thesis
    using selectNextQueued_None [of "db_tasks s" runID] by (simp add: ClaimNextTask_def)
next
  case (Some row)
  then show ?thesis
    using selectNextQueued_Some(1,2) [OF Some] by (auto simp: ClaimNextTask_def Let_def)
qed

lemma runCalls_append:
  "runCalls (xs @ ys) s =
     (fst (runCalls xs s) @ fst (runCalls ys (snd (runCalls xs s))),
      snd (runCalls ys (snd (runCalls xs s))))"
proof (induction xs arbitrary: s)
  case Nil
  show ?case by simp
next
  case (Cons c xs)
  show ?case
  proof (cases c)
    case (Claim runID workerID now fault)
    obtain res s1 where cl: "ClaimNextTask fault now s runID workerID = (res, s1)"
      by (cases "ClaimNextTask fault now s runID workerID")
    show ?thesis
      using Claim cl Cons.IH [of s1]
      by (simp add: case_prod_unfold Let_def split: sum.splits option.splits)
  next
    case (Update taskID status extraJSON now fault)
    then show ?thesis using Cons.IH by simp
  next
    case (Insert tasks fault)
    then show ?thesis using Cons.IH by simp
  qed
qed

lemma later_claim_fresh:
  assumes k: "keysOK s" and n: "\<forall>c \<in> set calls. noRequeue c"
    and cl: "ClaimNextTask fault now (snd (runCalls calls s)) runID workerID = (Inr (Some task), s2)"
  shows "t_ID task \<notin> set (map (\<lambda>e. t_ID (snd e)) (fst (runCalls calls s)))"
proof -
  have n': "\<forall>c \<in> set (calls @ [Claim runID workerID now fault]). noRequeue c"
    using n by simp
  have "fst (runCalls (calls @ [Claim runID workerID now fault]) s) =
          fst (runCalls calls s) @ [(workerID, task)]"
    using cl by (simp add: runCalls_append)
  with runCalls_claims [OF k n', THEN conjunct1] show ?thesis by simp
qed

subsection \<open>Rows of the tables along one iteration of the worker\<close>

lemma claimed_row_exists:
  assumes "ClaimNextTask fault now s runID workerID = (Inr (Some task), s1)"
  shows "\<exists>row. taskRow s1 (t_ID task) = Some row"
proof -
  from ClaimNextTask_cases [OF assms] obtain row where
    sel: "selectNextQueued (db_tasks s) runID = Some row" and t: "t_ID task = r_id row"
    and s1: "s1 = s\<lparr>db_tasks := map (markRunning (r_id row) workerID now) (db_tasks s)\<rparr>"
    by (auto simp: scanTask_def)
  have "row \<in> set (db_tasks s)" by (rule selectNextQueued_Some(1) [OF sel])
  then have "find (\<lambda>r. r_id r = r_id row) (db_tasks s) \<noteq> None"
    by (auto simp: find_None_iff)
  then show ?thesis by (auto simp: taskRow_def s1 t find_id_map)
qed

lemma find_SomeD: "find P xs = Some x \<Longrightarrow> P x"
  by (induction xs) (auto split: if_splits)

lemma find_snoc_hit: "P y \<Longrightarrow> find P (xs @ [y]) \<noteq> None"
  by (induction xs) auto

lemma CreateAttempt_cases:
  "CreateAttempt fault s attempt = (res, s2) \<Longrightarrow>
   (res = Inl DbError \<and> s2 = s) \<or>
   (res = Inr (db_attempts_seq s + 1) \<and>
    s2 = s\<lparr>db_attempts := db_attempts s @ [newAttemptRow (db_attempts_seq s + 1) attempt],
            db_attempts_seq := db_attempts_seq s + 1\<rparr>)"
  by (cases "fault = NoFault") (auto simp: CreateAttempt_def)

lemma CreateAttempt_row:
  assumes "CreateAttempt fault s attempt = (Inr i, s2)"
  shows "\<exists>arow. attemptRow s2 i = Some arow" and "db_tasks s2 = db_tasks s"
proof -
  from CreateAttempt_cases [OF assms]
  have i: "i = db_attempts_seq s + 1"
    and s2: "db_attempts s2 = db_attempts s @ [newAttemptRow (db_attempts_seq s + 1) attempt]"
    and t: "db_tasks s2 = db_tasks s"
    by simp_all
  have "find (\<lambda>a. at_id a = db_attempts_seq s + 1)
          (db_attempts s @ [newAttemptRow (db_attempts_seq s + 1) attempt]) \<noteq> None"
    by (rule find_snoc_hit) (simp add: newAttemptRow_def)
  then show "\<exists>arow. attemptRow s2 i = Some arow"
    unfolding attemptRow_def s2 i by blast
  show "db_tasks s2 = db_tasks s" by (rule t)
qed

lemma find_at_id_map:
  "(\<And>a. at_id (f a) = at_id a) \<Longrightarrow>
   find (\<lambda>a. at_id a = i) (map f rows) = map_option f (find (\<lambda>a. at_id a = i) rows)"
  by (induction rows) auto

lemma attemptRow_Finish:
  assumes "attemptRow s i = Some a"
  shows "\<exists>a'. attemptRow (snd (FinishAttempt NoFault now s i status summaryJSON v)) i = Some a' \<and>
           at_status a' = status \<and> at_validation_exit_code a' = v"
proof -
  have "at_id a = i" using find_SomeD [of "\<lambda>a. at_id a = i" "db_attempts s" a] assms
    by (simp add: attemptRow_def)
  then show ?thesis using assms
    by (simp add: FinishAttempt_def attemptRow_def find_at_id_map setFinished_def)
qed

lemma Finish_tasks [simp]: "db_tasks (snd (FinishAttempt fault now s i status summaryJSON v)) = db_tasks s"
  by (simp add: FinishAttempt_def)

lemma Update_attempts [simp]:
  "db_attempts (snd (UpdateTaskStatus fault now s i status extraJSON)) = db_attempts s"
  by (simp add: UpdateTaskStatus_def)

lemma InsertFindings_frame [simp]:
  "db_tasks (snd (InsertFindings fault s fs)) = db_tasks s"
  "db_attempts (snd (InsertFindings fault s fs)) = db_attempts s"
  by (simp_all add: InsertFindings_def)

lemma InsertTasks_attempts [simp]: "db_attempts (snd (InsertTasks fault s ts)) = db_attempts s"
  by (simp add: InsertTasks_def)

lemma runCheckpoint_plugins_frame:
  "db_attempts (snd (runCheckpoint_plugins cfg pw plugins s)) = db_attempts s \<and>
   (taskRow s i = Some r \<longrightarrow> taskRow (snd (runCheckpoint_plugins cfg pw plugins s)) i = Some r)"
proof (induction plugins arbitrary: s)
  case Nil
  show ?case by simp
next
  case (Cons p plugins)
  show ?case
  proof (cases "PluginEnabled cfg p")
    case False
    then show ?thesis using Cons.IH [of s] by simp
  next
    case True
    show ?thesis
    proof (cases "pp_findings (pw p)")
      case None
      then show ?thesis using True by simp
    next
      case (Some fs)
      obtain e1 s1 where f: "InsertFindings (pp_findings_fault (pw p)) s fs = (e1, s1)"
        by (cases "InsertFindings (pp_findings_fault (pw p)) s fs")
      have s1: "db_attempts s1 = db_attempts s" "taskRow s1 i = taskRow s i"
        using InsertFindings_frame [of "pp_findings_fault (pw p)" s fs] f
        by (simp_all add: taskRow_def)
      show ?thesis
      proof (cases e1)
        case (Some err)
        then show ?thesis using True \<open>pp_findings (pw p) = Some fs\<close> f s1 by simp
      next
        case None
        note e1 = None
        show ?thesis
        proof (cases "pp_tasks (pw p)")
          case None
          then show ?thesis using True \<open>pp_findings (pw p) = Some fs\<close> f e1 s1 by simp
        next
          case (Some ts)
          obtain e2 s2 where g: "InsertTasks (pp_tasks_fault (pw p)) s1 ts = (e2, s2)"
            by (cases "InsertTasks (pp_tasks_fault (pw p)) s1 ts")
          have s2: "db_attempts s2 = db_attempts s"
            "taskRow s i = Some r \<longrightarrow> taskRow s2 i = Some r"
            using InsertTasks_attempts [of "pp_tasks_fault (pw p)" s1 ts]
              taskRow_Insert [of s1 i r "pp_tasks_fault (pw p)" ts] g s1
            by simp_all
          have step: "runCheckpoint_plugins cfg pw (p # plugins) s =
                 (case e2 of Some err \<Rightarrow> (Some StoreFailed, s2)
                  | None \<Rightarrow> runCheckpoint_plugins cfg pw plugins s2)"
            using True \<open>pp_findings (pw p) = Some fs\<close> \<open>pp_tasks (pw p) = Some ts\<close> f g e1
            by simp
          show ?thesis
          proof (cases e2)
            case (Some err)
            then show ?thesis unfolding step using s2 by simp
          next
            case None
            then show ?thesis unfolding step using s2 Cons.IH [of s2] by simp
          qed
        qed
      qed
    qed
  qed
qed

lemma runCheckpoint_frame:
  "db_attempts (snd (runCheckpoint e w s)) = db_attempts s"
  "taskRow s i = Some r \<Longrightarrow> taskRow (snd (runCheckpoint e w s)) i = Some r"
proof -
  obtain err s1 where p: "runCheckpoint_plugins (rc_Config (ex_RunContext e)) (w_plugin w)
                            (ex_Plugins e) s = (err, s1)"
    by (cases "runCheckpoint_plugins (rc_Config (ex_RunContext e)) (w_plugin w) (ex_Plugins e) s")
  have s1: "db_attempts s1 = db_attempts s" "taskRow s i = Some r \<longrightarrow> taskRow s1 i = Some r"
    using runCheckpoint_plugins_frame
            [of "rc_Config (ex_RunContext e)" "w_plugin w" "ex_Plugins e" s i r] p
    by simp_all
  have "snd (runCheckpoint e w s) = s \<or> snd (runCheckpoint e w s) = s1"
    using p by (cases err) (simp_all add: runCheckpoint_def)
  then show "db_attempts (snd (runCheckpoint e w s)) = db_attempts s"
    using s1 by auto
  assume "taskRow s i = Some r"
  with s1 \<open>snd (runCheckpoint e w s) = s \<or> snd (runCheckpoint e w s) = s1\<close>
  show "taskRow (snd (runCheckpoint e w s)) i = Some r" by auto
qed

lemma runValidation_NewRegistry:
  "\<exists>v. runValidation Join (NewRegistry root) os spec workspace = Some v \<and>
       (v = 0 \<longleftrightarrow> list_all exitsZero (validationTrace Join root os workspace 0 (Commands spec)))"
  by (simp add: runValidation_def loop_foldl foldl_acc_zero list_all_iff)

lemma attemptRow_Finish_any:
  assumes "attemptRow s i = Some a"
  shows "\<exists>a'. attemptRow (snd (FinishAttempt fault now s i status summaryJSON v)) i = Some a' \<and>
           (if fault = NoFault then at_status a' = status \<and> at_validation_exit_code a' = v
            else a' = a)"
proof (cases "fault = NoFault")
  case True
  then show ?thesis using attemptRow_Finish [OF assms, of now status summaryJSON v] by simp
next
  case False
  then show ?thesis using assms by (simp add: FinishAttempt_def)
qed

lemma taskRow_Update_any:
  assumes "taskRow s i = Some r"
  shows "\<exists>r'. taskRow (snd (UpdateTaskStatus fault now s i status extraJSON)) i = Some r' \<and>
           (if fault = NoFault then r_status r' = status else r' = r)"
  using assms by (simp add: taskRow_Update)

lemma recorded_blocked:
  assumes a: "attemptRow s2 attemptID = Some arow0" and t: "taskRow s2 taskID = Some trow0"
  shows "\<exists>arow trow.
           attemptRow (snd (FinishAttempt ffault now2
               (snd (UpdateTaskStatus ufault now1 s2 taskID ''blocked'' extraJSON))
               attemptID ''failed'' summaryJSON v)) attemptID = Some arow \<and>
           taskRow (snd (FinishAttempt ffault now2
               (snd (UpdateTaskStatus ufault now1 s2 taskID ''blocked'' extraJSON))
               attemptID ''failed'' summaryJSON v)) taskID = Some trow \<and>
           (if ffault = NoFault then at_status arow = ''failed'' else arow = arow0) \<and>
           (if ufault = NoFault then r_status trow = ''blocked'' else trow = trow0)"
proof -
  let ?s3 = "snd (UpdateTaskStatus ufault now1 s2 taskID ''blocked'' extraJSON)"
  let ?s4 = "snd (FinishAttempt ffault now2 ?s3 attemptID ''failed'' summaryJSON v)"
  from taskRow_Update_any [OF t, of ufault now1 "''blocked''" extraJSON]
  obtain trow where trow: "taskRow ?s3 taskID = Some trow"
    "if ufault = NoFault then r_status trow = ''blocked'' else trow = trow0" by blast
  have "attemptRow ?s3 attemptID = Some arow0" using a by (simp add: attemptRow_def)
  from attemptRow_Finish_any [OF this, of ffault now2 "''failed''" summaryJSON v]
  obtain arow where arow: "attemptRow ?s4 attemptID = Some arow"
    "if ffault = NoFault then at_status arow = ''failed'' else arow = arow0"
    by (cases "ffault = NoFault") auto
  have "taskRow ?s4 taskID = Some trow" using trow(1) by (simp add: taskRow_def)
  with arow trow(2) show ?thesis by blast
qed

lemma settle_recorded:
  assumes reg: "rc_RunnerRegistry (ex_RunContext e) = NewRegistry root"
    and a: "attemptRow s2 attemptID = Some arow0"
    and t: "taskRow s2 (t_ID task) = Some trow0"
  shows "\<exists>s' ck' arow trow.
           settle h e w task attemptID workspace spec agentRes (s2, ck) = Next (s', ck') \<and>
           attemptRow s' attemptID = Some arow \<and> taskRow s' (t_ID task) = Some trow \<and>
           (if w_finish_fault w = NoFault
            then at_status arow =
                   (if \<not> isl agentRes \<and>
                       list_all exitsZero
                         (validationTrace (h_Join h) root (w_os w) (ws_Path workspace) 0 (Commands spec))
                    then ''succeeded'' else ''failed'')
            else arow = arow0) \<and>
           (if w_update_fault w = NoFault
            then r_status trow =
                   (if \<not> isl agentRes \<and>
                       list_all exitsZero
                         (validationTrace (h_Join h) root (w_os w) (ws_Path workspace) 0 (Commands spec))
                    then ''succeeded'' else ''blocked'')
            else trow = trow0)"
proof -
  let ?pass = "\<not> isl agentRes \<and>
               list_all exitsZero
                 (validationTrace (h_Join h) root (w_os w) (ws_Path workspace) 0 (Commands spec))"
  from runValidation_NewRegistry [of "h_Join h" root "w_os w" spec "ws_Path workspace"]
  obtain v where v: "runValidation (h_Join h) (NewRegistry root) (w_os w) spec (ws_Path workspace) = Some v"
    and v0: "v = 0 \<longleftrightarrow> list_all exitsZero
                 (validationTrace (h_Join h) root (w_os w) (ws_Path workspace) 0 (Commands spec))"
    by blast
  define status where "status = (if isl agentRes \<or> v \<noteq> 0 then ''failed'' else ''succeeded'')"
  define tstatus where "tstatus = (if status = ''succeeded'' then ''succeeded'' else ''blocked'')"
  define s3 where "s3 = snd (FinishAttempt (w_finish_fault w) (w_finish_time w) s2 attemptID status [] v)"
  define s4 where "s4 = snd (UpdateTaskStatus (w_update_fault w) (w_update_time w) s3 (t_ID task) tstatus [])"
  define run where "run = fst (ShouldRun ck (w_now1 w) (w_now2 w))"
  define ck' where "ck' = snd (ShouldRun ck (w_now1 w) (w_now2 w))"
  define s5 where "s5 = (if run then snd (runCheckpoint e w s4) else s4)"
  have eq: "settle h e w task attemptID workspace spec agentRes (s2, ck) = Next (s5, ck')"
    unfolding settle_def reg v s5_def ck'_def run_def s4_def tstatus_def s3_def status_def
    by (simp add: Let_def case_prod_unfold)
  from attemptRow_Finish_any [OF a, of "w_finish_fault w" "w_finish_time w" status "[]" v]
  obtain arow where arow: "attemptRow s3 attemptID = Some arow"
    "if w_finish_fault w = NoFault then at_status arow = status else arow = arow0"
    unfolding s3_def by (cases "w_finish_fault w = NoFault") auto
  have "taskRow s3 (t_ID task) = Some trow0" using t by (simp add: s3_def taskRow_def)
  from taskRow_Update_any [OF this, of "w_update_fault w" "w_update_time w" tstatus "[]"]
  obtain trow where trow: "taskRow s4 (t_ID task) = Some trow"
    "if w_update_fault w = NoFault then r_status trow = tstatus else trow = trow0"
    unfolding s4_def by blast
  have arow4: "attemptRow s4 attemptID = Some arow" using arow(1) by (simp add: s4_def attemptRow_def)
  have arow5: "attemptRow s5 attemptID = Some arow"
    using arow4 runCheckpoint_frame(1) [of e w s4] by (simp add: s5_def attemptRow_def)
  have trow5: "taskRow s5 (t_ID task) = Some trow"
    using trow(1) runCheckpoint_frame(2) [of s4 "t_ID task" trow e w] by (simp add: s5_def)
  have st: "status = (if ?pass then ''succeeded'' else ''failed'')"
    using v0 by (auto simp: status_def)
  have ts: "tstatus = (if ?pass then ''succeeded'' else ''blocked'')"
    using st by (simp add: tstatus_def)
  have A: "if w_finish_fault w = NoFault
            then at_status arow = (if ?pass then ''succeeded'' else ''failed'') else arow = arow0"
    using arow(2) st by (cases "w_finish_fault w = NoFault") simp_all
  have B: "if w_update_fault w = NoFault
            then r_status trow = (if ?pass then ''succeeded'' else ''blocked'') else trow = trow0"
    using trow(2) ts by (cases "w_update_fault w = NoFault") simp_all
  from eq arow5 trow5 A B show ?thesis by blast
qed

lemma Claim_attempts:
  "ClaimNextTask fault now s runID workerID = (res, s1) \<Longrightarrow>
   db_attempts s1 = db_attempts s \<and> db_attempts_seq s1 = db_attempts_seq s"
  by (drule ClaimNextTask_cases) auto

lemma claimed_row_running:
  assumes "keysOK s" "ClaimNextTask fault now s runID workerID = (Inr (Some t), s1)"
  shows "\<exists>r. taskRow s1 (t_ID t) = Some r \<and> r_status r = ''running''"
proof -
  from ClaimNextTask_cases [OF assms(2)] obtain row where
    sel: "selectNextQueued (db_tasks s) runID = Some row" and t: "t_ID t = r_id row"
    and s1: "s1 = s\<lparr>db_tasks := map (markRunning (r_id row) workerID now) (db_tasks s)\<rparr>"
    by (auto simp: scanTask_def)
  have mem: "row \<in> set (db_tasks s)" and q: "r_status row = ''queued''"
    using selectNextQueued_Some(1,2) [OF sel] by (auto simp: isQueuedOf_def)
  have "find (\<lambda>r. r_id r = r_id row) (db_tasks s) = Some row"
    using assms(1) mem by (simp add: keysOK_def find_distinct_id)
  then have "taskRow s1 (t_ID t) = Some (markRunning (r_id row) workerID now row)"
    by (simp add: taskRow_def s1 t find_id_map)
  then show ?thesis using q by (simp add: markRunning_def)
qed

lemma find_snoc_new:
  "\<forall>x \<in> set xs. \<not> P x \<Longrightarrow> P y \<Longrightarrow> find P (xs @ [y]) = Some y"
  by (induction xs) auto

lemma created_row_running:
  assumes "attemptKeysOK s" "CreateAttempt fault s (newAttempt e task now) = (Inr i, s2)"
  shows "\<exists>a. attemptRow s2 i = Some a \<and> at_status a = ''running''"
proof -
  from CreateAttempt_cases [OF assms(2)]
  have i: "i = db_attempts_seq s + 1"
    and s2: "db_attempts s2 = db_attempts s @ [newAttemptRow (db_attempts_seq s + 1) (newAttempt e task now)]"
    by simp_all
  have "\<forall>a \<in> set (db_attempts s). \<not> at_id a = db_attempts_seq s + 1"
    using assms(1) by (auto simp: attemptKeysOK_def list_all_iff)
  then have "find (\<lambda>a. at_id a = db_attempts_seq s + 1)
          (db_attempts s @ [newAttemptRow (db_attempts_seq s + 1) (newAttempt e task now)])
        = Some (newAttemptRow (db_attempts_seq s + 1) (newAttempt e task now))"
    by (rule find_snoc_new) (simp add: newAttemptRow_def)
  then show ?thesis unfolding attemptRow_def s2 i
    by (simp add: newAttemptRow_def newAttempt_def)
qed

lemma iteration_prepare_fails:
  assumes "ClaimNextTask (w_claim_fault w) (w_claim_time w) s
             (rc_RunID (ex_RunContext e)) workerID = (Inr (Some task), s1)"
    and "CreateAttempt (w_attempt_fault w) s1 (newAttempt e task (w_attempt_time w))
           = (Inr attemptID, s2)"
    and "w_prepare w = None"
  shows "\<exists>extraJSON summaryJSON.
           workerIteration h e workerID w (s, ck) =
             Return (snd (FinishAttempt (w_finish_fault w) (w_finish_time w)
                       (snd (UpdateTaskStatus (w_update_fault w) (w_update_time w) s2 (t_ID task)
                               ''blocked'' extraJSON))
                       attemptID ''failed'' summaryJSON 1), ck)"
  using assms by (simp add: workerIteration_def Let_def) blast

lemma iteration_spec_fails:
  assumes "ClaimNextTask (w_claim_fault w) (w_claim_time w) s
             (rc_RunID (ex_RunContext e)) workerID = (Inr (Some task), s1)"
    and "CreateAttempt (w_attempt_fault w) s1 (newAttempt e task (w_attempt_time w))
           = (Inr attemptID, s2)"
    and "w_prepare w = Some workspace"
    and "validationSpec (h_Unmarshal h) (t_ValidationJSON task) = None"
  shows "\<exists>extraJSON summaryJSON.
           workerIteration h e workerID w (s, ck) =
             Return (snd (FinishAttempt (w_finish_fault w) (w_finish_time w)
                       (snd (UpdateTaskStatus (w_update_fault w) (w_update_time w) s2 (t_ID task)
                               ''blocked'' extraJSON))
                       attemptID ''failed'' summaryJSON 1), ck)"
  using assms by (simp add: workerIteration_def Let_def) blast

lemma iteration_settles:
  assumes "ClaimNextTask (w_claim_fault w) (w_claim_time w) s
             (rc_RunID (ex_RunContext e)) workerID = (Inr (Some task), s1)"
    and "CreateAttempt (w_attempt_fault w) s1 (newAttempt e task (w_attempt_time w))
           = (Inr attemptID, s2)"
    and "w_prepare w = Some workspace"
    and "validationSpec (h_Unmarshal h) (t_ValidationJSON task) = Some spec"
  shows "workerIteration h e workerID w (s, ck) =
           settle h e w task attemptID workspace spec
             (Agent_Invoke (h_Fields h) (h_CodexCmd h) (w_child w) (ex_Agent e)
                (agentRequest e task workspace spec)) (s2, ck)"
  using assms by (simp add: workerIteration_def Let_def)

lemma iteration_attempt_fails:
  assumes "ClaimNextTask (w_claim_fault w) (w_claim_time w) s
             (rc_RunID (ex_RunContext e)) workerID = (Inr (Some task), s1)"
    and "CreateAttempt (w_attempt_fault w) s1 (newAttempt e task (w_attempt_time w))
           = (Inl err, s2)"
  shows "\<exists>extraJSON.
           workerIteration h e workerID w (s, ck) =
             Return (snd (UpdateTaskStatus (w_update_fault w) (w_update_time w) s2 (t_ID task)
                            ''blocked'' extraJSON), ck)"
  using assms by (simp add: workerIteration_def Let_def) blast

lemma worker_returns_without_task:
  assumes "\<forall>task. fst (ClaimNextTask (w_claim_fault w) (w_claim_time w) s
                          (rc_RunID (ex_RunContext e)) workerID) \<noteq> Inr (Some task)"
  shows "runWorker h e workerID (w # ws) (s, ck) = Some (Returned (s, ck))"
proof -
  obtain res s1 where cl: "ClaimNextTask (w_claim_fault w) (w_claim_time w) s
                          (rc_RunID (ex_RunContext e)) workerID = (res, s1)"
    by (cases "ClaimNextTask (w_claim_fault w) (w_claim_time w) s
                          (rc_RunID (ex_RunContext e)) workerID")
  from ClaimNextTask_cases [OF cl] assms cl
  have "(res = Inl DbError \<or> res = Inr None) \<and> s1 = s" by auto
  then have "workerIteration h e workerID w (s, ck) = Return (s, ck)"
    using cl by (auto simp: workerIteration_def)
  then show ?thesis by simp
qed

subsection \<open>C1: a task is claimed at most once\<close>

text \<open>
  C1, as the code has it.  Workers run side by side; the store runs each of their calls
  as one transaction, so a run is a sequence of store calls of any workers in any order,
  in which no status update writes \<open>queued\<close> (the worker writes \<open>blocked\<close> and
  \<open>succeeded\<close> only).  From a store that keeps the primary-key discipline, along every
  such sequence:

  \<^item> no two claims return the same task; every task a claim returns was claimable
    before (queued, or not yet inserted), is returned in status \<open>running\<close> with the
    claiming worker as claimant, and at the end has left the queue and still names that
    worker and that claim time;

  \<^item> a further claim, by any worker, in the store the sequence has left never returns a
    task that an earlier claim returned;

  \<^item> when its transaction goes through, the further claim returns a task exactly when
    the run has a queued task, and returns no task, leaving the store as it is, exactly
    when the run has none;

  \<^item> when its transaction fails, the further claim returns the error (or no task), never
    a task, and leaves the store as it is;

  \<^item> there is no retry: a worker whose claim returns an error or no task returns at
    once, with the store as it is, whatever is still queued.
\<close>

theorem claim_at_most_once:
  assumes "keysOK s" and "\<forall>c \<in> set calls. noRequeue c"
  shows "distinct (map (\<lambda>e. t_ID (snd e)) (fst (runCalls calls s))) \<and>
         (\<forall>e \<in> set (fst (runCalls calls s)).
            claimable s (t_ID (snd e)) \<and>
            t_Status (snd e) = ''running'' \<and> t_ClaimedBy (snd e) = fst e \<and>
            settledAs (snd (runCalls calls s)) (t_ID (snd e)) (Some (fst e))
              (Some (t_ClaimedAt (snd e)))) \<and>
         (\<forall>task s2.
            ClaimNextTask fault now (snd (runCalls calls s)) runID workerID = (Inr (Some task), s2) \<longrightarrow>
            t_ID task \<notin> set (map (\<lambda>e. t_ID (snd e)) (fst (runCalls calls s)))) \<and>
         ((\<exists>task s2. ClaimNextTask NoFault now (snd (runCalls calls s)) runID workerID
                        = (Inr (Some task), s2)) \<longleftrightarrow>
          (\<exists>r \<in> set (db_tasks (snd (runCalls calls s))). isQueuedOf runID r)) \<and>
         (ClaimNextTask NoFault now (snd (runCalls calls s)) runID workerID
            = (Inr None, snd (runCalls calls s)) \<longleftrightarrow>
          (\<forall>r \<in> set (db_tasks (snd (runCalls calls s))). \<not> isQueuedOf runID r)) \<and>
         (fault \<noteq> NoFault \<longrightarrow>
            snd (ClaimNextTask fault now (snd (runCalls calls s)) runID workerID)
              = snd (runCalls calls s) \<and>
            (fst (ClaimNextTask fault now (snd (runCalls calls s)) runID workerID) = Inl DbError \<or>
             fst (ClaimNextTask fault now (snd (runCalls calls s)) runID workerID) = Inr None)) \<and>
         ((\<forall>task. fst (ClaimNextTask (w_claim_fault w) (w_claim_time w) (snd (runCalls calls s))
                          (rc_RunID (ex_RunContext e)) workerID) \<noteq> Inr (Some task)) \<longrightarrow>
            runWorker h e workerID (w # ws) (snd (runCalls calls s), ck)
              = Some (Returned (snd (runCalls calls s), ck)))"
proof (intro conjI)
  show "distinct (map (\<lambda>e. t_ID (snd e)) (fst (runCalls calls s)))"
    using runCalls_claims [OF assms] by blast
  show "\<forall>e \<in> set (fst (runCalls calls s)).
            claimable s (t_ID (snd e)) \<and>
            t_Status (snd e) = ''running'' \<and> t_ClaimedBy (snd e) = fst e \<and>
            settledAs (snd (runCalls calls s)) (t_ID (snd e)) (Some (fst e))
              (Some (t_ClaimedAt (snd e)))"
    using runCalls_claims [OF assms] runCalls_claimants [OF assms] by blast
  show "\<forall>task s2.
            ClaimNextTask fault now (snd (runCalls calls s)) runID workerID = (Inr (Some task), s2) \<longrightarrow>
            t_ID task \<notin> set (map (\<lambda>e. t_ID (snd e)) (fst (runCalls calls s)))"
    using later_claim_fresh [OF assms] by blast
  show "(\<exists>task s2. ClaimNextTask NoFault now (snd (runCalls calls s)) runID workerID
                        = (Inr (Some task), s2)) \<longleftrightarrow>
          (\<exists>r \<in> set (db_tasks (snd (runCalls calls s))). isQueuedOf runID r)"
    by (rule queued_claim)
  show "ClaimNextTask NoFault now (snd (runCalls calls s)) runID workerID
            = (Inr None, snd (runCalls calls s)) \<longleftrightarrow>
          (\<forall>r \<in> set (db_tasks (snd (runCalls calls s))). \<not> isQueuedOf runID r)"
    by (rule empty_queue_claim)
  show "fault \<noteq> NoFault \<longrightarrow>
            snd (ClaimNextTask fault now (snd (runCalls calls s)) runID workerID)
              = snd (runCalls calls s) \<and>
            (fst (ClaimNextTask fault now (snd (runCalls calls s)) runID workerID) = Inl DbError \<or>
             fst (ClaimNextTask fault now (snd (runCalls calls s)) runID workerID) = Inr None)"
    using failed_claim by blast
  show "(\<forall>task. fst (ClaimNextTask (w_claim_fault w) (w_claim_time w) (snd (runCalls calls s))
                          (rc_RunID (ex_RunContext e)) workerID) \<noteq> Inr (Some task)) \<longrightarrow>
            runWorker h e workerID (w # ws) (snd (runCalls calls s), ck)
              = Some (Returned (snd (runCalls calls s), ck))"
    using worker_returns_without_task by blast
qed

theorem claim_at_most_once_witness:
  "keysOK exampleStore \<and> list_all noRequeue exampleCalls \<and>
   map (\<lambda>e. (fst e, t_ID (snd e))) (fst (runCalls exampleCalls exampleStore)) =
     [(''worker-1'', 3), (''worker-2'', 2), (''worker-1'', 1)] \<and>
   distinct (map (\<lambda>e. t_ID (snd e)) (fst (runCalls exampleCalls exampleStore))) \<and>
   map r_status (db_tasks (snd (runCalls exampleCalls exampleStore)))
     = [''running'', ''running'', ''blocked''] \<and>
   ClaimNextTask NoFault 100 (snd (runCalls exampleCalls exampleStore)) ''run-1'' ''worker-3''
     = (Inr None, snd (runCalls exampleCalls exampleStore)) \<and>
   runWorker exampleHost exampleExecutor ''worker-3''
     [exampleWorld (Some exampleWorkspace) exitsZeroAlways]
     (snd (runCalls exampleCalls exampleStore), exampleTracker)
     = Some (Returned (snd (runCalls exampleCalls exampleStore), exampleTracker))"
proof -
  let ?w = "exampleWorld (Some exampleWorkspace) exitsZeroAlways"
  let ?s = "snd (runCalls exampleCalls exampleStore)"
  have k: "keysOK exampleStore"
    by (simp add: keysOK_def exampleStore_def exampleRow_def)
  have n: "\<forall>c \<in> set exampleCalls. noRequeue c"
    by (simp add: exampleCalls_def)
  have r: "map (\<lambda>e. (fst e, t_ID (snd e))) (fst (runCalls exampleCalls exampleStore)) =
     [(''worker-1'', 3), (''worker-2'', 2), (''worker-1'', 1)]"
    by (simp add: exampleCalls_def exampleStore_def exampleRow_def ClaimNextTask_def
        UpdateTaskStatus_def selectNextQueued_def isQueuedOf_def sortsBefore_def scanTask_def
        markRunning_def setStatus_def Let_def)
  have st: "map r_status (db_tasks ?s) = [''running'', ''running'', ''blocked'']"
    by (simp add: exampleCalls_def exampleStore_def exampleRow_def ClaimNextTask_def
        UpdateTaskStatus_def selectNextQueued_def isQueuedOf_def sortsBefore_def scanTask_def
        markRunning_def setStatus_def Let_def)
  have q: "\<forall>r \<in> set (db_tasks ?s). \<not> isQueuedOf ''run-1'' r"
  proof
    fix r assume "r \<in> set (db_tasks ?s)"
    then have "r_status r \<in> set (map r_status (db_tasks ?s))" by simp
    then show "\<not> isQueuedOf ''run-1'' r" unfolding st by (auto simp: isQueuedOf_def)
  qed
  have w: "w_claim_fault ?w = NoFault" "w_claim_time ?w = 100"
    "rc_RunID (ex_RunContext exampleExecutor) = ''run-1''"
    by (simp_all add: exampleWorld_def exampleExecutor_def)
  note inst = claim_at_most_once [OF k n, where fault = NoFault and now = 100
      and runID = "''run-1''" and workerID = "''worker-3''" and w = "?w" and e = exampleExecutor
      and h = exampleHost and ws = "[]" and ck = exampleTracker]
  from inst have d: "distinct (map (\<lambda>e. t_ID (snd e)) (fst (runCalls exampleCalls exampleStore)))"
    by (rule conjunct1)
  from inst q have c: "ClaimNextTask NoFault 100 ?s ''run-1'' ''worker-3'' = (Inr None, ?s)"
    by blast
  then have "\<forall>task. fst (ClaimNextTask (w_claim_fault ?w) (w_claim_time ?w) ?s
                (rc_RunID (ex_RunContext exampleExecutor)) ''worker-3'') \<noteq> Inr (Some task)"
    unfolding w by simp
  with inst have rw: "runWorker exampleHost exampleExecutor ''worker-3'' [?w] (?s, exampleTracker)
     = Some (Returned (?s, exampleTracker))"
    by blast
  from k n r d st c rw show ?thesis
    unfolding list_all_iff by (intro conjI)
qed

text \<open>
  C1 as stated fails in what it says of the losing claimer.  Worker 1 has claimed the
  first of two queued tasks.  The claim of worker 2 then fails in its transaction (the
  database is busy): it does not see zero rows, it returns the error; the queue is not
  empty, since the second task is still queued; and the worker does not retry, it
  returns at once although two further iterations were open to it, leaving the second
  task queued and without an attempt.
\<close>

theorem claim_at_most_once_counterexample:
  "ClaimNextTask FailExec 100 twoTaskStoreClaimed ''run-1'' ''worker-2''
     = (Inl DbError, twoTaskStoreClaimed) \<and>
   selectNextQueued (db_tasks twoTaskStoreClaimed) ''run-1'' = Some (exampleRow 2 100 20 ''queued'') \<and>
   statusesAtReturn
     (runWorker exampleHost exampleExecutor ''worker-2''
        [busyClaimWorld, exampleWorld (Some exampleWorkspace) exitsZeroAlways,
         exampleWorld (Some exampleWorkspace) exitsZeroAlways]
        (twoTaskStoreClaimed, exampleTracker))
   = Some ([''running'', ''queued''], [])"
  by (simp add: workerIteration_def ClaimNextTask_def selectNextQueued_def isQueuedOf_def
      sortsBefore_def scanTask_def busyClaimWorld_def exampleWorld_def exampleExecutor_def
      twoTaskStoreClaimed_def twoTaskStore_def claimedRow_def exampleRow_def Let_def)

subsection \<open>C2: what decides the outcome of an attempt\<close>

text \<open>
  C2, as the code has it.  A worker has claimed a task (the runner registry is the one of
  \<open>NewRegistry\<close>, as \<open>Executor.Run\<close> builds it); nothing is assumed of the database.

  \<^item> If the attempt cannot be created, the worker asks for the task to be marked
    \<open>blocked\<close> and returns; no attempt is recorded.

  \<^item> If the attempt is created, the iteration ends (the worker returns or loops on, it
    does not panic) and the outcome it \<^emph>\<open>writes\<close> is \<open>succeeded\<close> for the attempt and
    the task exactly when the agent invocation returned no error and every validation
    command exited zero; in every other case (the workspace or the spec failed, the agent
    returned an error, or some validation command did not exit zero, whatever status the
    agent reported) it writes \<open>failed\<close> for the attempt and \<open>blocked\<close> for the task.
    The result record of the agent does not occur in the condition.

  \<^item> Each of the two writes is best effort: the error of \<open>FinishAttempt\<close> and of
    \<open>UpdateTaskStatus\<close> is dropped.  A write that takes effect records the status above;
    a write that fails leaves the row as the claim or the creation of the attempt left
    it, which under the primary-key discipline is \<open>running\<close>.
\<close>

theorem attempt_outcome:
  assumes claim: "ClaimNextTask (w_claim_fault w) (w_claim_time w) s
                    (rc_RunID (ex_RunContext e)) workerID = (Inr (Some task), s1)"
    and reg: "rc_RunnerRegistry (ex_RunContext e) = NewRegistry root"
  shows "(CreateAttempt (w_attempt_fault w) s1 (newAttempt e task (w_attempt_time w))
            = (Inl err, s2) \<longrightarrow>
          (\<exists>s' trow.
             workerIteration h e workerID w (s, ck) = Return (s', ck) \<and>
             db_attempts s' = db_attempts s1 \<and> taskRow s' (t_ID task) = Some trow \<and>
             (if w_update_fault w = NoFault then r_status trow = ''blocked''
              else Some trow = taskRow s1 (t_ID task) \<and>
                   (keysOK s \<longrightarrow> r_status trow = ''running'')))) \<and>
         (CreateAttempt (w_attempt_fault w) s1 (newAttempt e task (w_attempt_time w))
            = (Inr attemptID, s2) \<longrightarrow>
          (\<exists>s' ck' arow trow.
             (workerIteration h e workerID w (s, ck) = Return (s', ck') \<or>
              workerIteration h e workerID w (s, ck) = Next (s', ck')) \<and>
             attemptRow s' attemptID = Some arow \<and> taskRow s' (t_ID task) = Some trow \<and>
             (if w_finish_fault w = NoFault
              then at_status arow =
                     (if agentAndValidationPass h e root w task then ''succeeded'' else ''failed'')
              else Some arow = attemptRow s2 attemptID \<and>
                   (attemptKeysOK s \<longrightarrow> at_status arow = ''running'')) \<and>
             (if w_update_fault w = NoFault
              then r_status trow =
                     (if agentAndValidationPass h e root w task then ''succeeded'' else ''blocked'')
              else Some trow = taskRow s1 (t_ID task) \<and>
                   (keysOK s \<longrightarrow> r_status trow = ''running''))))"
proof (intro conjI impI)
  from claimed_row_exists [OF claim] obtain trow0 where t1: "taskRow s1 (t_ID task) = Some trow0"
    by blast
  have k: "keysOK s \<longrightarrow> r_status trow0 = ''running''"
    using claimed_row_running [OF _ claim] t1 by auto
  {
    assume att: "CreateAttempt (w_attempt_fault w) s1 (newAttempt e task (w_attempt_time w))
                   = (Inl err, s2)"
    from CreateAttempt_cases [OF att] have s2: "s2 = s1" by simp
    from iteration_attempt_fails [OF claim att, of h ck] obtain extraJSON where
      it: "workerIteration h e workerID w (s, ck) =
             Return (snd (UpdateTaskStatus (w_update_fault w) (w_update_time w) s1 (t_ID task)
                            ''blocked'' extraJSON), ck)"
      unfolding s2 by blast
    let ?s' = "snd (UpdateTaskStatus (w_update_fault w) (w_update_time w) s1 (t_ID task)
                            ''blocked'' extraJSON)"
    from taskRow_Update_any [OF t1, of "w_update_fault w" "w_update_time w" "''blocked''" extraJSON]
    obtain trow where trow: "taskRow ?s' (t_ID task) = Some trow"
      "if w_update_fault w = NoFault then r_status trow = ''blocked'' else trow = trow0" by blast
    have C: "if w_update_fault w = NoFault then r_status trow = ''blocked''
             else Some trow = taskRow s1 (t_ID task) \<and> (keysOK s \<longrightarrow> r_status trow = ''running'')"
      using trow(2) t1 k by (cases "w_update_fault w = NoFault") simp_all
    have "db_attempts ?s' = db_attempts s1" by simp
    with it trow(1) C
    show "\<exists>s' trow.
             workerIteration h e workerID w (s, ck) = Return (s', ck) \<and>
             db_attempts s' = db_attempts s1 \<and> taskRow s' (t_ID task) = Some trow \<and>
             (if w_update_fault w = NoFault then r_status trow = ''blocked''
              else Some trow = taskRow s1 (t_ID task) \<and>
                   (keysOK s \<longrightarrow> r_status trow = ''running''))"
      by blast
  }
  {
    assume attempt: "CreateAttempt (w_attempt_fault w) s1 (newAttempt e task (w_attempt_time w))
                   = (Inr attemptID, s2)"
    let ?pass = "agentAndValidationPass h e root w task"
    let ?goal = "\<exists>s' ck' arow trow.
             (workerIteration h e workerID w (s, ck) = Return (s', ck') \<or>
              workerIteration h e workerID w (s, ck) = Next (s', ck')) \<and>
             attemptRow s' attemptID = Some arow \<and> taskRow s' (t_ID task) = Some trow \<and>
             (if w_finish_fault w = NoFault
              then at_status arow = (if ?pass then ''succeeded'' else ''failed'')
              else Some arow = attemptRow s2 attemptID \<and>
                   (attemptKeysOK s \<longrightarrow> at_status arow = ''running'')) \<and>
             (if w_update_fault w = NoFault
              then r_status trow = (if ?pass then ''succeeded'' else ''blocked'')
              else Some trow = taskRow s1 (t_ID task) \<and>
                   (keysOK s \<longrightarrow> r_status trow = ''running''))"
    from CreateAttempt_row [OF attempt] obtain arow0 where
      a: "attemptRow s2 attemptID = Some arow0" and "db_tasks s2 = db_tasks s1"
      by blast
    then have t: "taskRow s2 (t_ID task) = Some trow0" using t1 by (simp add: taskRow_def)
    have "attemptKeysOK s1 = attemptKeysOK s"
      using Claim_attempts [OF claim] by (simp add: attemptKeysOK_def)
    then have ak: "attemptKeysOK s \<longrightarrow> at_status arow0 = ''running''"
      using created_row_running [OF _ attempt] a by auto
    have fin: ?goal
      if it: "workerIteration h e workerID w (s, ck) = Return (s', ck') \<or>
              workerIteration h e workerID w (s, ck) = Next (s', ck')"
        and ar: "attemptRow s' attemptID = Some arow" and tr: "taskRow s' (t_ID task) = Some trow"
        and A: "if w_finish_fault w = NoFault
                then at_status arow = (if ?pass then ''succeeded'' else ''failed'') else arow = arow0"
        and B: "if w_update_fault w = NoFault
                then r_status trow = (if ?pass then ''succeeded'' else ''blocked'') else trow = trow0"
      for s' ck' arow trow
    proof -
      have A': "if w_finish_fault w = NoFault
              then at_status arow = (if ?pass then ''succeeded'' else ''failed'')
              else Some arow = attemptRow s2 attemptID \<and>
                   (attemptKeysOK s \<longrightarrow> at_status arow = ''running'')"
        using A a ak by (cases "w_finish_fault w = NoFault") simp_all
      have B': "if w_update_fault w = NoFault
              then r_status trow = (if ?pass then ''succeeded'' else ''blocked'')
              else Some trow = taskRow s1 (t_ID task) \<and>
                   (keysOK s \<longrightarrow> r_status trow = ''running'')"
        using B t1 k by (cases "w_update_fault w = NoFault") simp_all
      from it ar tr A' B' show ?thesis by blast
    qed
    show ?goal
    proof (cases "w_prepare w")
      case None
      then have np: "\<not> ?pass" by (simp add: agentAndValidationPass_def)
      from iteration_prepare_fails [OF claim attempt None, of h ck] obtain extraJSON summaryJSON where
        it: "workerIteration h e workerID w (s, ck) =
               Return (snd (FinishAttempt (w_finish_fault w) (w_finish_time w)
                         (snd (UpdateTaskStatus (w_update_fault w) (w_update_time w) s2 (t_ID task)
                                 ''blocked'' extraJSON))
                         attemptID ''failed'' summaryJSON 1), ck)"
        by blast
      from recorded_blocked [OF a t, of "w_finish_fault w" "w_finish_time w" "w_update_fault w"
          "w_update_time w" extraJSON summaryJSON 1]
      obtain arow trow where
        r: "attemptRow (snd (FinishAttempt (w_finish_fault w) (w_finish_time w)
                         (snd (UpdateTaskStatus (w_update_fault w) (w_update_time w) s2 (t_ID task)
                                 ''blocked'' extraJSON))
                         attemptID ''failed'' summaryJSON 1)) attemptID = Some arow"
           "taskRow (snd (FinishAttempt (w_finish_fault w) (w_finish_time w)
                         (snd (UpdateTaskStatus (w_update_fault w) (w_update_time w) s2 (t_ID task)
                                 ''blocked'' extraJSON))
                         attemptID ''failed'' summaryJSON 1)) (t_ID task) = Some trow"
           "if w_finish_fault w = NoFault then at_status arow = ''failed'' else arow = arow0"
           "if w_update_fault w = NoFault then r_status trow = ''blocked'' else trow = trow0"
        by blast
      show ?thesis using r(3,4) np
        by (intro fin [OF disjI1 [OF it] r(1) r(2)]) simp_all
    next
      case (Some workspace)
      note ws = Some
      show ?thesis
      proof (cases "validationSpec (h_Unmarshal h) (t_ValidationJSON task)")
        case None
        then have np: "\<not> ?pass" by (simp add: agentAndValidationPass_def ws)
        from iteration_spec_fails [OF claim attempt ws None, of ck] obtain extraJSON summaryJSON where
          it: "workerIteration h e workerID w (s, ck) =
                 Return (snd (FinishAttempt (w_finish_fault w) (w_finish_time w)
                           (snd (UpdateTaskStatus (w_update_fault w) (w_update_time w) s2 (t_ID task)
                                   ''blocked'' extraJSON))
                           attemptID ''failed'' summaryJSON 1), ck)"
          by blast
        from recorded_blocked [OF a t, of "w_finish_fault w" "w_finish_time w" "w_update_fault w"
            "w_update_time w" extraJSON summaryJSON 1]
        obtain arow trow where
          r: "attemptRow (snd (FinishAttempt (w_finish_fault w) (w_finish_time w)
                           (snd (UpdateTaskStatus (w_update_fault w) (w_update_time w) s2 (t_ID task)
                                   ''blocked'' extraJSON))
                           attemptID ''failed'' summaryJSON 1)) attemptID = Some arow"
             "taskRow (snd (FinishAttempt (w_finish_fault w) (w_finish_time w)
                           (snd (UpdateTaskStatus (w_update_fault w) (w_update_time w) s2 (t_ID task)
                                   ''blocked'' extraJSON))
                           attemptID ''failed'' summaryJSON 1)) (t_ID task) = Some trow"
             "if w_finish_fault w = NoFault then at_status arow = ''failed'' else arow = arow0"
             "if w_update_fault w = NoFault then r_status trow = ''blocked'' else trow = trow0"
          by blast
        show ?thesis using r(3,4) np
          by (intro fin [OF disjI1 [OF it] r(1) r(2)]) simp_all
      next
        case (Some spec)
        let ?agentRes = "Agent_Invoke (h_Fields h) (h_CodexCmd h) (w_child w) (ex_Agent e)
                  (agentRequest e task workspace spec)"
        have pass: "?pass \<longleftrightarrow>
                    \<not> isl ?agentRes \<and>
                    list_all exitsZero
                      (validationTrace (h_Join h) root (w_os w) (ws_Path workspace) 0 (Commands spec))"
          by (simp add: agentAndValidationPass_def ws Some)
        from settle_recorded [OF reg a t, of h w workspace spec ?agentRes ck]
        obtain s' ck' arow trow where
          r: "settle h e w task attemptID workspace spec ?agentRes (s2, ck) = Next (s', ck')"
             "attemptRow s' attemptID = Some arow" "taskRow s' (t_ID task) = Some trow"
             "if w_finish_fault w = NoFault
              then at_status arow = (if ?pass then ''succeeded'' else ''failed'') else arow = arow0"
             "if w_update_fault w = NoFault
              then r_status trow = (if ?pass then ''succeeded'' else ''blocked'') else trow = trow0"
          unfolding pass by blast
        have it: "workerIteration h e workerID w (s, ck) = Next (s', ck')"
          using iteration_settles [OF claim attempt ws Some, of ck] r(1) by simp
        show ?thesis by (rule fin [OF disjI2 [OF it] r(2) r(3) r(4) r(5)])
      qed
    qed
  }
qed

theorem attempt_outcome_witness:
  "\<not> isl (Agent_Invoke (h_Fields exampleHost) (h_CodexCmd exampleHost) printsMismatch Local
            (agentRequest exampleExecutor exampleClaimedTask exampleWorkspace exampleSpec)) \<and>
   \<not> agentAndValidationPass exampleHost exampleExecutor ''artifacts''
        (exampleWorld (Some exampleWorkspace) exits_2_then_1) exampleClaimedTask \<and>
   (\<exists>s' ck' arow trow.
      (workerIteration exampleHost exampleExecutor ''worker-1''
         (exampleWorld (Some exampleWorkspace) exits_2_then_1) (twoTaskStore, exampleTracker)
         = Return (s', ck') \<or>
       workerIteration exampleHost exampleExecutor ''worker-1''
         (exampleWorld (Some exampleWorkspace) exits_2_then_1) (twoTaskStore, exampleTracker)
         = Next (s', ck')) \<and>
      attemptRow s' 1 = Some arow \<and> taskRow s' 1 = Some trow \<and>
      at_status arow = ''failed'' \<and> r_status trow = ''blocked'') \<and>
   keysOK twoTaskStore \<and> attemptKeysOK twoTaskStore \<and>
   (\<exists>s' ck' arow trow.
      (workerIteration exampleHost exampleExecutor ''worker-1'' failedWritesWorld
         (twoTaskStore, exampleTracker) = Return (s', ck') \<or>
       workerIteration exampleHost exampleExecutor ''worker-1'' failedWritesWorld
         (twoTaskStore, exampleTracker) = Next (s', ck')) \<and>
      attemptRow s' 1 = Some arow \<and> taskRow s' 1 = Some trow \<and>
      at_status arow = ''running'' \<and> r_status trow = ''running'')"
proof -
  let ?w = "exampleWorld (Some exampleWorkspace) exits_2_then_1"
  have claim: "ClaimNextTask (w_claim_fault ?w) (w_claim_time ?w) twoTaskStore
                 (rc_RunID (ex_RunContext exampleExecutor)) ''worker-1''
               = (Inr (Some exampleClaimedTask), twoTaskStoreClaimed)"
    by (simp add: ClaimNextTask_def selectNextQueued_def isQueuedOf_def sortsBefore_def
        scanTask_def markRunning_def exampleWorld_def twoTaskStore_def twoTaskStoreClaimed_def
        exampleClaimedTask_def claimedRow_def exampleRow_def exampleExecutor_def Let_def)
  have attempt: "CreateAttempt (w_attempt_fault ?w) twoTaskStoreClaimed
                   (newAttempt exampleExecutor exampleClaimedTask (w_attempt_time ?w))
                 = (Inr 1, twoTaskStoreAttempted)"
    by (simp add: CreateAttempt_def exampleWorld_def twoTaskStoreAttempted_def
        twoTaskStoreClaimed_def twoTaskStore_def)
  have writes: "w_finish_fault ?w = NoFault" "w_update_fault ?w = NoFault"
    by (simp_all add: exampleWorld_def)
  have claim': "ClaimNextTask (w_claim_fault failedWritesWorld) (w_claim_time failedWritesWorld)
                 twoTaskStore (rc_RunID (ex_RunContext exampleExecutor)) ''worker-1''
               = (Inr (Some exampleClaimedTask), twoTaskStoreClaimed)"
    using claim by (simp add: failedWritesWorld_def exampleWorld_def)
  have attempt': "CreateAttempt (w_attempt_fault failedWritesWorld) twoTaskStoreClaimed
                   (newAttempt exampleExecutor exampleClaimedTask (w_attempt_time failedWritesWorld))
                 = (Inr 1, twoTaskStoreAttempted)"
    using attempt by (simp add: failedWritesWorld_def exampleWorld_def)
  have writes': "w_finish_fault failedWritesWorld \<noteq> NoFault"
    "w_update_fault failedWritesWorld \<noteq> NoFault"
    by (simp_all add: failedWritesWorld_def)
  have reg: "rc_RunnerRegistry (ex_RunContext exampleExecutor) = NewRegistry ''artifacts''"
    by (simp add: exampleExecutor_def)
  have agent: "\<not> isl (Agent_Invoke (h_Fields exampleHost) (h_CodexCmd exampleHost) printsMismatch
                  Local (agentRequest exampleExecutor exampleClaimedTask exampleWorkspace exampleSpec))"
    by (simp add: LocalAdapter_Invoke_def agentRequest_def exampleClaimedTask_def scanTask_def
        claimedRow_def exampleRow_def)
  have np: "\<not> agentAndValidationPass exampleHost exampleExecutor ''artifacts'' ?w exampleClaimedTask"
    by (simp add: agentAndValidationPass_def exampleWorld_def exampleHost_def validationSpec_def
        parsesToExample_def exampleSpec_def exits_2_then_1_def exited_def exampleWorkspace_def
        validationCommand_def Run_def NewGenericRunner_def exitsZero_def Let_def)
  have id: "t_ID exampleClaimedTask = 1"
    by (simp add: exampleClaimedTask_def scanTask_def claimedRow_def exampleRow_def)
  have k: "keysOK twoTaskStore"
    by (simp add: keysOK_def twoTaskStore_def exampleRow_def)
  have ak: "attemptKeysOK twoTaskStore"
    by (simp add: attemptKeysOK_def twoTaskStore_def)
  from attempt_outcome [OF claim reg, THEN conjunct2, rule_format, OF attempt,
         of exampleHost exampleTracker]
  have E: "\<exists>s' ck' arow trow.
      (workerIteration exampleHost exampleExecutor ''worker-1'' ?w (twoTaskStore, exampleTracker)
         = Return (s', ck') \<or>
       workerIteration exampleHost exampleExecutor ''worker-1'' ?w (twoTaskStore, exampleTracker)
         = Next (s', ck')) \<and>
      attemptRow s' 1 = Some arow \<and> taskRow s' 1 = Some trow \<and>
      at_status arow = ''failed'' \<and> r_status trow = ''blocked''"
    unfolding id by (simp add: writes np)
  from attempt_outcome [OF claim' reg, THEN conjunct2, rule_format, OF attempt',
         of exampleHost exampleTracker]
  have F: "\<exists>s' ck' arow trow.
      (workerIteration exampleHost exampleExecutor ''worker-1'' failedWritesWorld
         (twoTaskStore, exampleTracker) = Return (s', ck') \<or>
       workerIteration exampleHost exampleExecutor ''worker-1'' failedWritesWorld
         (twoTaskStore, exampleTracker) = Next (s', ck')) \<and>
      attemptRow s' 1 = Some arow \<and> taskRow s' 1 = Some trow \<and>
      at_status arow = ''running'' \<and> r_status trow = ''running''"
    unfolding id using writes' k ak by simp blast
  from agent np E k ak F show ?thesis by (intro conjI)
qed

text \<open>
  C2 as stated fails for a task whose final writes do not reach the database (a busy or
  locked database, say).  The local agent returns no error and every validation command
  exits zero, yet with \<open>FinishAttempt\<close> and \<open>UpdateTaskStatus\<close> failing for the first
  task the worker drops both errors and goes on: when it returns, the first attempt and
  the first task both still read \<open>running\<close>, not \<open>succeeded\<close>, beside the second task and
  attempt, whose writes took effect.
\<close>

theorem attempt_outcome_counterexample:
  "agentAndValidationPass exampleHost exampleExecutor ''artifacts'' failedWritesWorld
     exampleClaimedTask \<and>
   statusesAtReturn
     (runWorker exampleHost exampleExecutor ''worker-1''
        [failedWritesWorld, exampleWorld (Some exampleWorkspace) exitsZeroAlways,
         exampleWorld (Some exampleWorkspace) exitsZeroAlways]
        (twoTaskStore, exampleTracker))
   = Some ([''running'', ''succeeded''], [''running'', ''succeeded''])"
proof -
  have p: "agentAndValidationPass exampleHost exampleExecutor ''artifacts'' failedWritesWorld
     exampleClaimedTask"
    by (simp add: agentAndValidationPass_def failedWritesWorld_def exampleWorld_def exampleHost_def
        validationSpec_def parsesToExample_def exampleSpec_def exitsZeroAlways_def exited_def
        exampleWorkspace_def validationCommand_def Run_def NewGenericRunner_def exitsZero_def
        LocalAdapter_Invoke_def agentRequest_def exampleClaimedTask_def scanTask_def
        claimedRow_def exampleRow_def exampleExecutor_def Let_def)
  have r: "statusesAtReturn
     (runWorker exampleHost exampleExecutor ''worker-1''
        [failedWritesWorld, exampleWorld (Some exampleWorkspace) exitsZeroAlways,
         exampleWorld (Some exampleWorkspace) exitsZeroAlways]
        (twoTaskStore, exampleTracker))
   = Some ([''running'', ''succeeded''], [''running'', ''succeeded''])"
    by (simp add: workerIteration_def settle_def ClaimNextTask_def selectNextQueued_def
      isQueuedOf_def sortsBefore_def scanTask_def markRunning_def CreateAttempt_def
      newAttempt_def newAttemptRow_def UpdateTaskStatus_def setStatus_def FinishAttempt_def
      setFinished_def exampleHost_def exampleExecutor_def exampleWorld_def failedWritesWorld_def
      twoTaskStore_def exampleRow_def exampleTracker_def exampleSpec_def exampleWorkspace_def
      parsesToExample_def exitsZeroAlways_def exited_def Let_def
      validationSpec_def agentRequest_def LocalAdapter_Invoke_def runValidation_def
      NewRegistry_def Get_def Run_def validationCommand_def NewGenericRunner_def
      ShouldRun_def newCheckpointTracker_def Minute_def)
  from p r show ?thesis by (intro conjI)
qed

subsection \<open>C3: the exit code of a validation run\<close>

text \<open>
  C3, as the code has it.  With the registry of \<open>NewRegistry\<close>, \<open>runValidation\<close> runs
  every command of the spec with \<open>AllowNonZero = true\<close> and returns a code \<open>v\<close>.  \<open>v\<close> is
  zero exactly when every command exits zero (so it is zero for an empty command list).
  When some command does not exit zero, \<open>v\<close> is the code of the last such command: its
  exit code, or 1 when the runner returned an error.
\<close>

theorem runValidation_last_nonzero:
  "\<exists>v. runValidation Join (NewRegistry root) os spec workspace = Some v \<and>
     (v = 0 \<longleftrightarrow> (\<forall>r \<in> set (validationTrace Join root os workspace 0 (Commands spec)). exitsZero r)) \<and>
     v = (case rev (filter (\<lambda>r. \<not> exitsZero r)
                      (validationTrace Join root os workspace 0 (Commands spec))) of
            [] \<Rightarrow> 0
          | r # _ \<Rightarrow> observedCode r) \<and>
     (\<forall>command \<in> set (Commands spec). cmd_AllowNonZero (validationCommand command workspace))"
  by (simp add: runValidation_def loop_foldl foldl_acc_zero validationCommand_def)
     (simp add: foldl_acc_last)

theorem runValidation_last_nonzero_witness:
  "runValidation concat (NewRegistry ''artifacts'') exits_2_then_1 exampleSpec ''ws'' = Some 1 \<and>
   map observedCode (validationTrace concat ''artifacts'' exits_2_then_1 ''ws'' 0 (Commands exampleSpec))
     = [2, 1]"
  using runValidation_last_nonzero [of concat "''artifacts''" exits_2_then_1 exampleSpec "''ws''"]
  by (simp add: exampleSpec_def exits_2_then_1_def exited_def validationCommand_def Run_def
      NewGenericRunner_def observedCode_def exitsZero_def Let_def)

text \<open>
  C3 as stated fails: two commands exiting with 2 and then 1 give the validation exit
  code 1, while the worst of the observed codes is 2.
\<close>

theorem runValidation_worst_counterexample:
  "runValidation concat (NewRegistry ''artifacts'') exits_2_then_1 exampleSpec ''ws'' = Some 1 \<and>
   worstExitCode
     (map observedCode
        (validationTrace concat ''artifacts'' exits_2_then_1 ''ws'' 0 (Commands exampleSpec))) = 2"
  by (simp add: runValidation_def exampleSpec_def exits_2_then_1_def exited_def
      validationCommand_def Run_def NewGenericRunner_def NewRegistry_def Get_def observedCode_def
      worstExitCode_def Let_def)

subsection \<open>C4: what the worker does after a workspace or spec failure\<close>

text \<open>
  C4 fails on the code.  Two tasks are queued; preparing the workspace of the first one
  fails.  The worker marks that task \<open>blocked\<close>, finishes its attempt as \<open>failed\<close> and
  returns: the second task stays \<open>queued\<close> and gets no attempt, although the world would
  have let it succeed.
\<close>

theorem worker_returns_after_workspace_failure:
  "statusesAtReturn
     (runWorker exampleHost exampleExecutor ''worker-1''
        [exampleWorld None exitsZeroAlways, exampleWorld (Some exampleWorkspace) exitsZeroAlways,
         exampleWorld (Some exampleWorkspace) exitsZeroAlways]
        (twoTaskStore, exampleTracker))
   = Some ([''blocked'', ''queued''], [''failed''])"
  by (simp add: workerIteration_def ClaimNextTask_def selectNextQueued_def isQueuedOf_def
      sortsBefore_def scanTask_def markRunning_def CreateAttempt_def newAttempt_def
      newAttemptRow_def UpdateTaskStatus_def setStatus_def FinishAttempt_def setFinished_def
      exampleHost_def exampleExecutor_def exampleWorld_def twoTaskStore_def exampleRow_def
      exampleTracker_def Let_def)

text \<open>After a failed validation, in contrast, the loop goes on to the next task.\<close>

lemma worker_continues_after_failed_validation:
  "statusesAtReturn
     (runWorker exampleHost exampleExecutor ''worker-1''
        [exampleWorld (Some exampleWorkspace) exits_2_then_1,
         exampleWorld (Some exampleWorkspace) exitsZeroAlways,
         exampleWorld (Some exampleWorkspace) exitsZeroAlways]
        (twoTaskStore, exampleTracker))
   = Some ([''blocked'', ''succeeded''], [''failed'', ''succeeded''])"
  by (simp add: workerIteration_def settle_def ClaimNextTask_def selectNextQueued_def
      isQueuedOf_def sortsBefore_def scanTask_def markRunning_def CreateAttempt_def
      newAttempt_def newAttemptRow_def UpdateTaskStatus_def setStatus_def FinishAttempt_def
      setFinished_def exampleHost_def exampleExecutor_def exampleWorld_def twoTaskStore_def
      exampleRow_def exampleTracker_def exampleSpec_def exampleWorkspace_def
      parsesToExample_def exitsZeroAlways_def exits_2_then_1_def exited_def Let_def
      validationSpec_def agentRequest_def LocalAdapter_Invoke_def runValidation_def
      NewRegistry_def Get_def Run_def validationCommand_def NewGenericRunner_def
      ShouldRun_def newCheckpointTracker_def Minute_def)

subsection \<open>C5: results that do not match their request\<close>

text \<open>The local and the Codex adapters return only results that match the request.\<close>

lemma Local_result_matches:
  "Agent_Invoke Fields envval child Local req = Inr res \<Longrightarrow> resultMatches req res"
  by (auto simp: LocalAdapter_Invoke_def resultMatches_def split: if_splits)

lemma Codex_result_matches:
  "Agent_Invoke Fields envval child (Codex a) req = Inr res \<Longrightarrow> resultMatches req res"
  by (auto simp: CodexCLIAdapter_Invoke_def resultMatches_def Let_def
      split: if_splits child_outcome.splits)

text \<open>
  C5 fails for the generic command adapter: a child process that prints a result of
  schema version 2, run \<open>run-0\<close> and task 99 to a request of schema version 1, run
  \<open>run-1\<close> and task 3 has that result returned, without an error.
\<close>

theorem CommandAdapter_returns_mismatch:
  "Agent_Invoke Fields envval printsMismatch cliAgent exampleRequest = Inr mismatchedResult \<and>
   \<not> resultMatches exampleRequest mismatchedResult"
  by (simp add: cliAgent_def CommandAdapter_Invoke_def printsMismatch_def resultMatches_def
      exampleRequest_def mismatchedResult_def)

subsection \<open>C6: which task a claim selects\<close>

text \<open>
  C6.  When \<open>ClaimNextTask\<close> returns a task (no database fault), that task is a row of
  the run that was queued; no queued row of the run has a higher priority, and none of
  equal priority an earlier \<open>created_at\<close>; the store changes by the claim's update of
  that row, which under the primary-key discipline is the only row that changes.  It
  returns a task whenever the run has a queued row.  When the run has none, it returns
  no task and the store is unchanged, whatever the database does.
\<close>

theorem ClaimNextTask_selects:
  "(ClaimNextTask NoFault now s runID workerID = (Inr (Some task), s') \<longrightarrow>
      t_Status task = ''running'' \<and> t_ClaimedBy task = workerID \<and>
      (\<exists>row \<in> set (db_tasks s).
         r_id row = t_ID task \<and> r_run_id row = runID \<and> r_status row = ''queued'' \<and>
         t_Priority task = r_priority row \<and> t_CreatedAt task = r_created_at row \<and>
         (\<forall>r \<in> set (db_tasks s). r_run_id r = runID \<and> r_status r = ''queued'' \<longrightarrow>
            r_priority r \<le> r_priority row \<and>
            (r_priority r = r_priority row \<longrightarrow> r_created_at row \<le> r_created_at r)) \<and>
         s' = s\<lparr>db_tasks := map (markRunning (r_id row) workerID now) (db_tasks s)\<rparr> \<and>
         (keysOK s \<longrightarrow>
            db_tasks s' = map (\<lambda>r. if r = row
                                     then row\<lparr>r_status := ''running'', r_claimed_by := Some workerID,
                                              r_claimed_at := Some now, r_updated_at := now\<rparr>
                                     else r) (db_tasks s)))) \<and>
   ((\<exists>r \<in> set (db_tasks s). r_run_id r = runID \<and> r_status r = ''queued'') \<longrightarrow>
      (\<exists>task s'. ClaimNextTask NoFault now s runID workerID = (Inr (Some task), s'))) \<and>
   ((\<forall>r \<in> set (db_tasks s). \<not> (r_run_id r = runID \<and> r_status r = ''queued'')) \<longrightarrow>
      ClaimNextTask NoFault now s runID workerID = (Inr None, s) \<and>
      (\<forall>fault. snd (ClaimNextTask fault now s runID workerID) = s \<and>
                (\<forall>task. fst (ClaimNextTask fault now s runID workerID) \<noteq> Inr (Some task))))"
proof (intro conjI impI)
  assume cl: "ClaimNextTask NoFault now s runID workerID = (Inr (Some task), s')"
  from ClaimNextTask_cases [OF cl] obtain row where
    sel: "selectNextQueued (db_tasks s) runID = Some row"
    and task: "task = (scanTask runID row)\<lparr>t_Status := ''running'', t_ClaimedBy := workerID,
                                           t_ClaimedAt := now, t_UpdatedAt := now\<rparr>"
    and s': "s' = s\<lparr>db_tasks := map (markRunning (r_id row) workerID now) (db_tasks s)\<rparr>"
    by auto
  show "t_Status task = ''running''" "t_ClaimedBy task = workerID" by (simp_all add: task)
  have mem: "row \<in> set (db_tasks s)" and q: "isQueuedOf runID row"
    using selectNextQueued_Some(1,2) [OF sel] by auto
  have best: "\<forall>r \<in> set (db_tasks s). r_run_id r = runID \<and> r_status r = ''queued'' \<longrightarrow>
            r_priority r \<le> r_priority row \<and>
            (r_priority r = r_priority row \<longrightarrow> r_created_at row \<le> r_created_at r)"
  proof (intro ballI impI)
    fix r assume "r \<in> set (db_tasks s)" "r_run_id r = runID \<and> r_status r = ''queued''"
    then have "\<not> sortsBefore r row" using selectNextQueued_Some(3) [OF sel] by (simp add: isQueuedOf_def)
    then show "r_priority r \<le> r_priority row \<and>
            (r_priority r = r_priority row \<longrightarrow> r_created_at row \<le> r_created_at r)"
      by (auto simp: sortsBefore_def)
  qed
  have single: "keysOK s \<longrightarrow>
            db_tasks s' = map (\<lambda>r. if r = row
                                     then row\<lparr>r_status := ''running'', r_claimed_by := Some workerID,
                                              r_claimed_at := Some now, r_updated_at := now\<rparr>
                                     else r) (db_tasks s)"
  proof
    assume k: "keysOK s"
    have "\<And>r. r \<in> set (db_tasks s) \<Longrightarrow> r_id r = r_id row \<Longrightarrow> r = row"
      using k mem by (auto simp: keysOK_def distinct_map inj_on_def)
    then show "db_tasks s' = map (\<lambda>r. if r = row
                                     then row\<lparr>r_status := ''running'', r_claimed_by := Some workerID,
                                              r_claimed_at := Some now, r_updated_at := now\<rparr>
                                     else r) (db_tasks s)"
      using q by (auto simp: s' markRunning_def isQueuedOf_def)
  qed
  show "\<exists>row \<in> set (db_tasks s).
         r_id row = t_ID task \<and> r_run_id row = runID \<and> r_status row = ''queued'' \<and>
         t_Priority task = r_priority row \<and> t_CreatedAt task = r_created_at row \<and>
         (\<forall>r \<in> set (db_tasks s). r_run_id r = runID \<and> r_status r = ''queued'' \<longrightarrow>
            r_priority r \<le> r_priority row \<and>
            (r_priority r = r_priority row \<longrightarrow> r_created_at row \<le> r_created_at r)) \<and>
         s' = s\<lparr>db_tasks := map (markRunning (r_id row) workerID now) (db_tasks s)\<rparr> \<and>
         (keysOK s \<longrightarrow>
            db_tasks s' = map (\<lambda>r. if r = row
                                     then row\<lparr>r_status := ''running'', r_claimed_by := Some workerID,
                                              r_claimed_at := Some now, r_updated_at := now\<rparr>
                                     else r) (db_tasks s))"
    using mem q best single s' by (intro bexI [of _ row]) (simp_all add: task scanTask_def isQueuedOf_def)
next
  assume "\<exists>r \<in> set (db_tasks s). r_run_id r = runID \<and> r_status r = ''queued''"
  then have "selectNextQueued (db_tasks s) runID \<noteq> None"
    by (simp add: selectNextQueued_None isQueuedOf_def)
  then show "\<exists>task s'. ClaimNextTask NoFault now s runID workerID = (Inr (Some task), s')"
    by (auto simp: ClaimNextTask_def Let_def)
next
  assume none: "\<forall>r \<in> set (db_tasks s). \<not> (r_run_id r = runID \<and> r_status r = ''queued'')"
  then have sel: "selectNextQueued (db_tasks s) runID = None"
    by (simp add: selectNextQueued_None isQueuedOf_def)
  then show "ClaimNextTask NoFault now s runID workerID = (Inr None, s)"
    by (simp add: ClaimNextTask_def)
  show "\<forall>fault. snd (ClaimNextTask fault now s runID workerID) = s \<and>
                (\<forall>task. fst (ClaimNextTask fault now s runID workerID) \<noteq> Inr (Some task))"
    using sel by (simp add: ClaimNextTask_def)
qed

theorem ClaimNextTask_selects_witness:
  "ClaimNextTask NoFault 100 exampleStore ''run-1'' ''worker-1'' =
     (Inr (Some (scanTask ''run-1'' (claimedRow (exampleRow 3 100 15 ''queued'') ''worker-1'' 100))),
      exampleStore\<lparr>db_tasks := [exampleRow 1 50 10 ''queued'', exampleRow 2 100 20 ''queued'',
                                 claimedRow (exampleRow 3 100 15 ''queued'') ''worker-1'' 100]\<rparr>) \<and>
   keysOK exampleStore \<and>
   ClaimNextTask NoFault 100 emptyStore ''run-1'' ''worker-1'' = (Inr None, emptyStore)"
  using ClaimNextTask_selects
          [of 100 exampleStore "''run-1''" "''worker-1''"
              "scanTask ''run-1'' (claimedRow (exampleRow 3 100 15 ''queued'') ''worker-1'' 100)"
              "exampleStore\<lparr>db_tasks := [exampleRow 1 50 10 ''queued'', exampleRow 2 100 20 ''queued'',
                                 claimedRow (exampleRow 3 100 15 ''queued'') ''worker-1'' 100]\<rparr>"]
        ClaimNextTask_selects [of 100 emptyStore "''run-1''" "''worker-1''"]
  by (simp add: ClaimNextTask_def exampleStore_def emptyStore_def exampleRow_def claimedRow_def
      selectNextQueued_def isQueuedOf_def sortsBefore_def scanTask_def markRunning_def keysOK_def
      Let_def)

subsection \<open>C7: when the runner fails\<close>

text \<open>
  C7.  \<open>Run\<close> returns an error exactly when it fails before the process is started (no
  argv, an output file that cannot be created: launch and IO errors) or when
  \<open>allow_nonzero\<close> is not set and \<open>execCmd.Run()\<close> returned an error of exit code other
  than 0.  With \<open>allow_nonzero\<close> set only the former remain.  A process that was launched
  and exited with a non-zero code \<open>c\<close> is returned as a result with exit code \<open>c\<close> and no
  error when \<open>allow_nonzero\<close> is set, and is the error \<open>CommandFailed\<close> otherwise.  A
  process that could not be started, or whose output could not be copied, counts as exit
  code 1: the error \<open>CommandFailed\<close> without \<open>allow_nonzero\<close>, a result with exit code 1
  with it.
\<close>

theorem Run_fails_only_for_launch_or_io:
  "(snd (Run Join r os cmd) \<noteq> None \<longleftrightarrow>
      failsBeforeStart os cmd \<or> (\<not> cmd_AllowNonZero cmd \<and> exitCode (proc_err os) \<noteq> 0)) \<and>
   (cmd_AllowNonZero cmd \<longrightarrow>
      (snd (Run Join r os cmd) \<noteq> None \<longleftrightarrow> failsBeforeStart os cmd)) \<and>
   (\<not> failsBeforeStart os cmd \<and> proc_err os = Some (ExitError c) \<and> c \<noteq> 0 \<longrightarrow>
      (if cmd_AllowNonZero cmd
       then snd (Run Join r os cmd) = None \<and> er_ExitCode (fst (Run Join r os cmd)) = c
       else snd (Run Join r os cmd) = Some (CommandFailed (ExitError c)))) \<and>
   (\<not> failsBeforeStart os cmd \<and> proc_err os = Some LaunchOrIOError \<longrightarrow>
      (if cmd_AllowNonZero cmd
       then snd (Run Join r os cmd) = None \<and> er_ExitCode (fst (Run Join r os cmd)) = 1
       else snd (Run Join r os cmd) = Some (CommandFailed LaunchOrIOError)))"
  by (auto simp: Run_def failsBeforeStart_def Let_def split: option.splits)

theorem Run_fails_only_for_launch_or_io_witness:
  "cmd_AllowNonZero exampleCommand \<and> \<not> failsBeforeStart (exited 2) exampleCommand \<and>
   proc_err (exited 2) = Some (ExitError 2) \<and>
   snd (Run concat (NewGenericRunner ''artifacts'') (exited 2) exampleCommand) = None \<and>
   er_ExitCode (fst (Run concat (NewGenericRunner ''artifacts'') (exited 2) exampleCommand)) = 2 \<and>
   snd (Run concat (NewGenericRunner ''artifacts'') (exited 2)
          (exampleCommand\<lparr>cmd_AllowNonZero := False\<rparr>)) = Some (CommandFailed (ExitError 2))"
  using Run_fails_only_for_launch_or_io
          [of concat "NewGenericRunner ''artifacts''" "exited 2" exampleCommand 2]
        Run_fails_only_for_launch_or_io
          [of concat "NewGenericRunner ''artifacts''" "exited 2"
              "exampleCommand\<lparr>cmd_AllowNonZero := False\<rparr>" 2]
  by (simp add: exampleCommand_def exited_def failsBeforeStart_def)

subsection \<open>C8: checkpoints and the fingerprints of repeated findings\<close>







subsection \<open>C9: the shapes of a resolved interpreter\<close>

text \<open>
  C9, as the code has it.  For every profile \<open>ResolvePython\<close> returns one of two shapes,
  never both: an interpreter path with no tool and no prefix, the path being that of
  the profile's virtual environment when it has one and the bare name \<open>python\<close>
  otherwise (no uv lock); or the tool \<open>uv\<close> with the prefix \<open>run python\<close> and no
  interpreter path (a uv lock and no virtual environment).  On a repository with a uv
  lock and a virtual environment \<open>Detect\<close> labels the manager \<open>uv\<close> and the invocation is
  the interpreter of the virtual environment; with a uv lock and no virtual environment
  the manager is \<open>uv\<close> and the invocation is \<open>uv run python\<close>.
\<close>

theorem ResolvePython_shapes:
  "(interpreterMode (ResolvePython p) \<and> (VenvPath p \<noteq> [] \<or> \<not> HasUVLock p) \<and>
      PythonPath (ResolvePython p) = (if VenvPath p \<noteq> [] then VenvPath p else ''python'')
    \<or> toolRunnerMode (ResolvePython p) \<and> VenvPath p = [] \<and> HasUVLock p \<and>
      ResolvePython p = \<lparr>PythonPath = [], Tool = ''uv'', PrefixArgs = [''run'', ''python'']\<rparr>) \<and>
   \<not> (interpreterMode (ResolvePython p) \<and> toolRunnerMode (ResolvePython p)) \<and>
   (exists (Join [repo, ''uv.lock'']) \<and> exists (Join [repo, ''.venv'', ''bin'', ''python'']) \<and>
    Join [repo, ''.venv'', ''bin'', ''python''] \<noteq> [] \<longrightarrow>
      PythonManager (Detect Join exists repo) = ''uv'' \<and>
      ResolvePython (Detect Join exists repo) =
        \<lparr>PythonPath = Join [repo, ''.venv'', ''bin'', ''python''], Tool = [], PrefixArgs = []\<rparr>) \<and>
   (exists (Join [repo, ''uv.lock'']) \<and> \<not> exists (Join [repo, ''.venv'', ''bin'', ''python'']) \<longrightarrow>
      PythonManager (Detect Join exists repo) = ''uv'' \<and>
      ResolvePython (Detect Join exists repo) =
        \<lparr>PythonPath = [], Tool = ''uv'', PrefixArgs = [''run'', ''python'']\<rparr>)"
  by (auto simp: ResolvePython_def Detect_def interpreterMode_def toolRunnerMode_def Let_def)

theorem ResolvePython_shapes_witness:
  "hasUvAndVenv (slashJoin [''/repo'', ''uv.lock'']) \<and>
   hasUvAndVenv (slashJoin [''/repo'', ''.venv'', ''bin'', ''python'']) \<and>
   PythonManager (Detect slashJoin hasUvAndVenv ''/repo'') = ''uv'' \<and>
   ResolvePython (Detect slashJoin hasUvAndVenv ''/repo'') =
     \<lparr>PythonPath = ''/repo/.venv/bin/python'', Tool = [], PrefixArgs = []\<rparr> \<and>
   hasUvOnly (slashJoin [''/repo'', ''uv.lock'']) \<and>
   \<not> hasUvOnly (slashJoin [''/repo'', ''.venv'', ''bin'', ''python'']) \<and>
   ResolvePython (Detect slashJoin hasUvOnly ''/repo'') =
     \<lparr>PythonPath = [], Tool = ''uv'', PrefixArgs = [''run'', ''python'']\<rparr>"
  using ResolvePython_shapes [of systemProfile hasUvAndVenv slashJoin "''/repo''"]
        ResolvePython_shapes [of systemProfile hasUvOnly slashJoin "''/repo''"]
  by (simp add: slashJoin_def hasUvAndVenv_def hasUvOnly_def)

text \<open>
  C9 as stated fails: for a profile without lock file and virtual environment the
  invocation is the bare name \<open>python\<close>, which is not an absolute path, so it has
  neither of the two shapes of the claim.
\<close>

theorem ResolvePython_absolute_counterexample:
  "ResolvePython systemProfile = \<lparr>PythonPath = ''python'', Tool = [], PrefixArgs = []\<rparr> \<and>
   \<not> IsAbs (PythonPath (ResolvePython systemProfile)) \<and>
   \<not> interpreterMode_spec (ResolvePython systemProfile) \<and>
   \<not> toolRunnerMode_spec (ResolvePython systemProfile)"
  by (simp add: ResolvePython_def systemProfile_def interpreterMode_spec_def
      toolRunnerMode_spec_def IsAbs_def)

subsection \<open>C10: what a status update leaves alone\<close>

text \<open>
  C10.  \<open>UpdateTaskStatus\<close> keeps the number and the order of the rows of \<open>tasks\<close>;
  a row with another id is unchanged; in every row all columns other than \<open>status\<close>,
  \<open>extra_json\<close> and \<open>updated_at\<close> are unchanged, in particular \<open>claimed_by\<close> and
  \<open>claimed_at\<close>; the other tables and the key counters are unchanged.  Hence a running
  task that is moved to a status other than \<open>queued\<close> keeps its claimant and claim time
  through every later sequence of store calls of the workers.
\<close>

theorem UpdateTaskStatus_frame:
  "(length (db_tasks (snd (UpdateTaskStatus fault now s taskID status extraJSON)))
      = length (db_tasks s) \<and>
    (\<forall>k < length (db_tasks s).
       (r_id (db_tasks s ! k) \<noteq> taskID \<longrightarrow>
          db_tasks (snd (UpdateTaskStatus fault now s taskID status extraJSON)) ! k = db_tasks s ! k) \<and>
       (db_tasks (snd (UpdateTaskStatus fault now s taskID status extraJSON)) ! k)
          \<lparr>r_status := r_status (db_tasks s ! k), r_extra_json := r_extra_json (db_tasks s ! k),
           r_updated_at := r_updated_at (db_tasks s ! k)\<rparr> = db_tasks s ! k \<and>
       r_claimed_by (db_tasks (snd (UpdateTaskStatus fault now s taskID status extraJSON)) ! k)
          = r_claimed_by (db_tasks s ! k) \<and>
       r_claimed_at (db_tasks (snd (UpdateTaskStatus fault now s taskID status extraJSON)) ! k)
          = r_claimed_at (db_tasks s ! k)) \<and>
    db_tasks_seq (snd (UpdateTaskStatus fault now s taskID status extraJSON)) = db_tasks_seq s \<and>
    db_attempts (snd (UpdateTaskStatus fault now s taskID status extraJSON)) = db_attempts s \<and>
    db_attempts_seq (snd (UpdateTaskStatus fault now s taskID status extraJSON)) = db_attempts_seq s \<and>
    db_findings (snd (UpdateTaskStatus fault now s taskID status extraJSON)) = db_findings s \<and>
    db_findings_seq (snd (UpdateTaskStatus fault now s taskID status extraJSON)) = db_findings_seq s) \<and>
   (taskRow s taskID = Some row \<and> r_status row = ''running'' \<and> status \<noteq> ''queued'' \<and>
    (\<forall>c \<in> set calls. noRequeue c) \<longrightarrow>
      settledAs (snd (runCalls calls (snd (UpdateTaskStatus fault now s taskID status extraJSON))))
        taskID (r_claimed_by row) (r_claimed_at row))"
proof (intro conjI impI)
  assume a: "taskRow s taskID = Some row \<and> r_status row = ''running'' \<and> status \<noteq> ''queued'' \<and>
    (\<forall>c \<in> set calls. noRequeue c)"
  then have "settledAs s taskID (r_claimed_by row) (r_claimed_at row)"
    by (simp add: settledAs_def)
  then have "settledAs (snd (UpdateTaskStatus fault now s taskID status extraJSON)) taskID
               (r_claimed_by row) (r_claimed_at row)"
    using a settledAs_Update by blast
  then show "settledAs (snd (runCalls calls (snd (UpdateTaskStatus fault now s taskID status extraJSON))))
        taskID (r_claimed_by row) (r_claimed_at row)"
    using a runCalls_settled by blast
qed (auto simp: UpdateTaskStatus_def setStatus_def)

theorem UpdateTaskStatus_frame_witness:
  "taskRow exampleStoreClaimed 3 = Some (claimedRow (exampleRow 3 100 15 ''queued'') ''worker-1'' 100) \<and>
   list_all noRequeue exampleCalls \<and>
   settledAs (snd (runCalls exampleCalls
                     (snd (UpdateTaskStatus NoFault 102 exampleStoreClaimed 3 ''succeeded'' []))))
     3 (Some ''worker-1'') (Some 100)"
  using UpdateTaskStatus_frame
          [of NoFault 102 exampleStoreClaimed 3 "''succeeded''" "[]"
              "claimedRow (exampleRow 3 100 15 ''queued'') ''worker-1'' 100" exampleCalls]
  by (simp add: taskRow_def exampleStoreClaimed_def exampleStore_def exampleRow_def
      claimedRow_def exampleCalls_def)

end
